theory Spec2Isabelle
  imports Main "HOL-Library.Sublist" "HOL-Library.AList"
begin

section \<open>Python strings\<close>

text \<open>
  A Python \<^verbatim>\<open>str\<close> is modelled by the list of the bytes of its UTF-8 encoding, so an ASCII
  character is one \<^typ>\<open>char\<close> and any other code point is two to four of them. Every pattern the
  planner searches for is ASCII apart from the two status glyphs, and UTF-8 is
  self-synchronising, so prefix tests, substring replacement and character counts on the bytes
  agree with the same operations on code points.
\<close>

text \<open>\<^verbatim>\<open>s.startswith(p)\<close> is \<^term>\<open>prefix p s\<close>; with a tuple of prefixes any one may match.\<close>

definition py_startswith :: "string \<Rightarrow> string list \<Rightarrow> bool" where
  "py_startswith s ps = list_ex (\<lambda>p. prefix p s) ps"

text \<open>
  \<^verbatim>\<open>s.replace(old, new)\<close>: the occurrences of \<open>old\<close> are found from the left and do not overlap;
  an empty \<open>old\<close> matches before every character and at the end.
\<close>

fun py_replace :: "string \<Rightarrow> string \<Rightarrow> string \<Rightarrow> string" where
  "py_replace [] old new = (if old = [] then new else [])"
| "py_replace (c # s) old new =
     (if old = [] then new @ c # py_replace s old new
      else if prefix old (c # s) then new @ py_replace (drop (length old) (c # s)) old new
      else c # py_replace s old new)"

text \<open>\<^verbatim>\<open>s.count(sub)\<close>: the number of non-overlapping occurrences, found from the left.\<close>

fun py_count :: "string \<Rightarrow> string \<Rightarrow> nat" where
  "py_count [] sub = (if sub = [] then 1 else 0)"
| "py_count (c # s) sub =
     (if sub = [] then 1 + py_count s sub
      else if prefix sub (c # s) then 1 + py_count (drop (length sub) (c # s)) sub
      else py_count s sub)"

text \<open>\<^verbatim>\<open>s.find(sub)\<close> and \<^verbatim>\<open>s.rfind(sub)\<close>: the lowest and the highest index of an occurrence, or -1.\<close>

fun py_find :: "string \<Rightarrow> string \<Rightarrow> int" where
  "py_find [] sub = (if sub = [] then 0 else - 1)"
| "py_find (c # s) sub =
     (if prefix sub (c # s) then 0
      else (let i = py_find s sub in if i = - 1 then - 1 else i + 1))"

fun py_rfind :: "string \<Rightarrow> string \<Rightarrow> int" where
  "py_rfind [] sub = (if sub = [] then 0 else - 1)"
| "py_rfind (c # s) sub =
     (let i = py_rfind s sub in
      if i \<noteq> - 1 then i + 1 else if prefix sub (c # s) then 0 else - 1)"

text \<open>\<^verbatim>\<open>s[i:j]\<close>: a negative index counts from the end, and both are clamped to the string.\<close>

definition py_slice :: "string \<Rightarrow> int \<Rightarrow> int \<Rightarrow> string" where
  "py_slice s i j =
     (let n = int (length s);
          i' = (if i < 0 then max 0 (n + i) else min i n);
          j' = (if j < 0 then max 0 (n + j) else min j n)
      in take (nat (j' - i')) (drop (nat i') s))"

text \<open>
  The characters \<^verbatim>\<open>str.strip()\<close> removes are those with \<^verbatim>\<open>str.isspace()\<close>, listed here in UTF-8:
  the ASCII ones (U+0009 to U+000D, U+001C to U+0020), then U+0085, U+00A0, U+1680,
  U+2000 to U+200A, U+2028, U+2029, U+202F, U+205F and U+3000.
\<close>

definition py_whitespace :: "string list" where
  "py_whitespace =
     [[CHR 0x09], [CHR 0x0A], [CHR 0x0B], [CHR 0x0C], [CHR 0x0D],
      [CHR 0x1C], [CHR 0x1D], [CHR 0x1E], [CHR 0x1F], [CHR 0x20],
      [CHR 0xC2, CHR 0x85], [CHR 0xC2, CHR 0xA0], [CHR 0xE1, CHR 0x9A, CHR 0x80],
      [CHR 0xE2, CHR 0x80, CHR 0x80], [CHR 0xE2, CHR 0x80, CHR 0x81],
      [CHR 0xE2, CHR 0x80, CHR 0x82], [CHR 0xE2, CHR 0x80, CHR 0x83],
      [CHR 0xE2, CHR 0x80, CHR 0x84], [CHR 0xE2, CHR 0x80, CHR 0x85],
      [CHR 0xE2, CHR 0x80, CHR 0x86], [CHR 0xE2, CHR 0x80, CHR 0x87],
      [CHR 0xE2, CHR 0x80, CHR 0x88], [CHR 0xE2, CHR 0x80, CHR 0x89],
      [CHR 0xE2, CHR 0x80, CHR 0x8A], [CHR 0xE2, CHR 0x80, CHR 0xA8],
      [CHR 0xE2, CHR 0x80, CHR 0xA9], [CHR 0xE2, CHR 0x80, CHR 0xAF],
      [CHR 0xE2, CHR 0x81, CHR 0x9F], [CHR 0xE3, CHR 0x80, CHR 0x80]]"

text \<open>
  Stripping from the left drops one whitespace character after the other. Every entry of the
  table is at least one byte long, so dropping the matched entry \<open>w\<close> from \<open>c # s\<close> is dropping
  \<open>length w - 1\<close> bytes from \<open>s\<close>. The right-hand side is the mirror image.
\<close>

fun lstrip_of :: "string list \<Rightarrow> string \<Rightarrow> string" where
  "lstrip_of ws [] = []"
| "lstrip_of ws (c # s) =
     (case find (\<lambda>w. prefix w (c # s)) ws of
        None \<Rightarrow> c # s
      | Some w \<Rightarrow> lstrip_of ws (drop (length w - 1) s))"

definition py_lstrip :: "string \<Rightarrow> string" where
  "py_lstrip s = lstrip_of py_whitespace s"

definition py_rstrip :: "string \<Rightarrow> string" where
  "py_rstrip s = rev (lstrip_of (map rev py_whitespace) (rev s))"

definition py_strip :: "string \<Rightarrow> string" where
  "py_strip s = py_rstrip (py_lstrip s)"

text \<open>
  \<^verbatim>\<open>s.lower()\<close> on the ASCII letters. The bytes of other code points are kept: the only code
  points outside ASCII whose lower-case form holds an ASCII character are U+0130 and U+212A,
  and neither can take part in a match of the markers tested below.
\<close>

definition lower_char :: "char \<Rightarrow> char" where
  "lower_char c =
     (case map_of (zip ''ABCDEFGHIJKLMNOPQRSTUVWXYZ'' ''abcdefghijklmnopqrstuvwxyz'') c of
        None \<Rightarrow> c
      | Some l \<Rightarrow> l)"

definition py_lower :: "string \<Rightarrow> string" where
  "py_lower s = map lower_char s"

section \<open>Python values\<close>

text \<open>
  The values \<^verbatim>\<open>json.loads\<close> builds and a tool may return. A \<^verbatim>\<open>dict\<close> is the list of its items in
  insertion order; a \<^verbatim>\<open>float\<close> is kept as the text of its literal.
\<close>

datatype pyval =
    PNone
  | PBool bool
  | PInt int
  | PFloat string
  | PStr string
  | PList "pyval list"
  | PDict "(string \<times> pyval) list"

text \<open>\<^verbatim>\<open>d.get(k)\<close> is \<^verbatim>\<open>None\<close> for a missing key; \<^verbatim>\<open>k in d\<close> tests the keys.\<close>

definition dict_get :: "(string \<times> pyval) list \<Rightarrow> string \<Rightarrow> pyval" where
  "dict_get d k = (case map_of d k of None \<Rightarrow> PNone | Some v \<Rightarrow> v)"

definition dict_has :: "(string \<times> pyval) list \<Rightarrow> string \<Rightarrow> bool" where
  "dict_has d k = (k \<in> set (map fst d))"

text \<open>
  \<^verbatim>\<open>str(v)\<close> of a string is the string itself. For every other value it is the value's \<^verbatim>\<open>repr\<close>,
  which belongs to the interpreter and is a parameter \<open>repr\<close> of the model.
\<close>

definition py_str :: "(pyval \<Rightarrow> string) \<Rightarrow> pyval \<Rightarrow> string" where
  "py_str repr v = (case v of PStr s \<Rightarrow> s | _ \<Rightarrow> repr v)"

section \<open>The substitution walk\<close>

definition PREV_OUTPUT :: string where
  "PREV_OUTPUT = ''$PREV_OUTPUT''"

text \<open>
  \<^verbatim>\<open>replace_prev_output(data_structure, output)\<close>, the function nested in \<^verbatim>\<open>execute_step\<close>. The
  comprehension over \<^verbatim>\<open>items()\<close> keeps every key and the order of the items.
\<close>

primrec replace_prev_output :: "(pyval \<Rightarrow> string) \<Rightarrow> pyval \<Rightarrow> pyval \<Rightarrow> pyval" where
  "replace_prev_output repr PNone output = PNone"
| "replace_prev_output repr (PBool b) output = PBool b"
| "replace_prev_output repr (PInt i) output = PInt i"
| "replace_prev_output repr (PFloat f) output = PFloat f"
| "replace_prev_output repr (PStr s) output =
     (if s = PREV_OUTPUT
      then PStr (if output \<noteq> PNone then py_str repr output else [])
      else PStr s)"
| "replace_prev_output repr (PList xs) output =
     PList (map (\<lambda>item. replace_prev_output repr item output) xs)"
| "replace_prev_output repr (PDict kvs) output =
     PDict (map (map_prod id (\<lambda>v. replace_prev_output repr v output)) kvs)"

text \<open>
  A place inside a payload is reached by a path of dictionary keys and list indices, as in
  \<^verbatim>\<open>payload["a"][1]["b"]\<close>.
\<close>

datatype selector = Key string | Index nat

fun child :: "pyval \<Rightarrow> selector \<Rightarrow> pyval option" where
  "child (PDict kvs) (Key k) = map_of kvs k"
| "child (PList xs) (Index i) = (if i < length xs then Some (xs ! i) else None)"
| "child _ _ = None"

fun at_path :: "pyval \<Rightarrow> selector list \<Rightarrow> pyval option" where
  "at_path v [] = Some v"
| "at_path v (sel # p) = (case child v sel of None \<Rightarrow> None | Some c \<Rightarrow> at_path c p)"

definition is_scalar :: "pyval \<Rightarrow> bool" where
  "is_scalar v = (case v of PList _ \<Rightarrow> False | PDict _ \<Rightarrow> False | _ \<Rightarrow> True)"

section \<open>Reading JSON\<close>

text \<open>
  \<^verbatim>\<open>json.loads\<close> belongs to the standard library. The functions that call it take it as a
  parameter; the reader below follows \<^verbatim>\<open>json.decoder\<close> and \<^verbatim>\<open>json.scanner\<close> and is what the
  examples are evaluated with.
\<close>

definition json_ws :: "char \<Rightarrow> bool" where
  "json_ws c = (c \<in> set [CHR 0x20, CHR 0x09, CHR 0x0A, CHR 0x0D])"

definition skip_ws :: "string \<Rightarrow> string" where
  "skip_ws s = dropWhile json_ws s"

definition is_digit :: "char \<Rightarrow> bool" where
  "is_digit c = (c \<in> set ''0123456789'')"

definition digit_val :: "char \<Rightarrow> int" where
  "digit_val c = (case map_of (zip ''0123456789'' [0, 1, 2, 3, 4, 5, 6, 7, 8, 9]) c of
                    None \<Rightarrow> 0 | Some d \<Rightarrow> d)"

definition hex_val :: "char \<Rightarrow> nat option" where
  "hex_val c =
     map_of (zip ''0123456789abcdefABCDEF''
               [0, 1, 2, 3, 4, 5, 6, 7, 8, 9, 10, 11, 12, 13, 14, 15, 10, 11, 12, 13, 14, 15]) c"

definition hex4 :: "char \<Rightarrow> char \<Rightarrow> char \<Rightarrow> char \<Rightarrow> nat option" where
  "hex4 a b c d =
     (case (hex_val a, hex_val b, hex_val c, hex_val d) of
        (Some w, Some x, Some y, Some z) \<Rightarrow> Some (((w * 16 + x) * 16 + y) * 16 + z)
      | _ \<Rightarrow> None)"

text \<open>The UTF-8 bytes of a code point (a lone surrogate is written like any three-byte one).\<close>

definition utf8 :: "nat \<Rightarrow> string" where
  "utf8 n =
     (if n < 0x80 then [char_of n]
      else if n < 0x800 then [char_of (0xC0 + n div 64), char_of (0x80 + n mod 64)]
      else if n < 0x10000 then
        [char_of (0xE0 + n div 4096), char_of (0x80 + n div 64 mod 64), char_of (0x80 + n mod 64)]
      else
        [char_of (0xF0 + n div 262144), char_of (0x80 + n div 4096 mod 64),
         char_of (0x80 + n div 64 mod 64), char_of (0x80 + n mod 64)])"

definition escapes :: "(char \<times> char) list" where
  "escapes =
     [(CHR 0x22, CHR 0x22), (CHR 0x5C, CHR 0x5C), (CHR ''/'', CHR ''/''), (CHR ''b'', CHR 0x08),
      (CHR ''f'', CHR 0x0C), (CHR ''n'', CHR 0x0A), (CHR ''r'', CHR 0x0D), (CHR ''t'', CHR 0x09)]"

text \<open>
  \<^verbatim>\<open>scanstring\<close> in strict mode, started after the opening quote: the text of the string and
  what follows the closing quote. A control character ends the scan with an error; a high
  surrogate escape followed by a low one is a single code point.
\<close>

fun scanstring :: "string \<Rightarrow> (string \<times> string) option" where
  "scanstring [] = None"
| "scanstring (c # s) =
     (if c = CHR 0x22 then Some ([], s)
      else if c = CHR 0x5C then
        (case s of
           [] \<Rightarrow> None
         | e # t \<Rightarrow>
             if e = CHR ''u'' then
               (case t of
                  h1 # h2 # h3 # h4 # t' \<Rightarrow>
                    (case hex4 h1 h2 h3 h4 of
                       None \<Rightarrow> None
                     | Some hi \<Rightarrow>
                         (case t' of
                            b # u # l1 # l2 # l3 # l4 # t'' \<Rightarrow>
                              (case hex4 l1 l2 l3 l4 of
                                 Some lo \<Rightarrow>
                                   if 0xD800 \<le> hi \<and> hi \<le> 0xDBFF \<and> b = CHR 0x5C \<and> u = CHR ''u''
                                      \<and> 0xDC00 \<le> lo \<and> lo \<le> 0xDFFF
                                   then map_option
                                          (apfst ((@) (utf8 (0x10000 + (hi - 0xD800) * 1024 + (lo - 0xDC00)))))
                                          (scanstring t'')
                                   else map_option (apfst ((@) (utf8 hi))) (scanstring t')
                               | None \<Rightarrow> map_option (apfst ((@) (utf8 hi))) (scanstring t'))
                          | _ \<Rightarrow> map_option (apfst ((@) (utf8 hi))) (scanstring t')))
                | _ \<Rightarrow> None)
             else
               (case map_of escapes e of
                  None \<Rightarrow> None
                | Some x \<Rightarrow> map_option (apfst ((#) x)) (scanstring t)))
      else if (of_char c :: nat) < 0x20 then None
      else map_option (apfst ((#) c)) (scanstring s))"

text \<open>
  \<^verbatim>\<open>NUMBER_RE\<close>: an optional sign, \<open>0\<close> or a run of digits that does not start with \<open>0\<close>, then a
  fraction and an exponent, each taken only when it has a digit. Without either the number is
  an \<^verbatim>\<open>int\<close>.
\<close>

definition scan_frac :: "string \<Rightarrow> string \<times> string" where
  "scan_frac s =
     (case s of
        c # t \<Rightarrow> if c = CHR ''.'' \<and> takeWhile is_digit t \<noteq> []
                 then (c # takeWhile is_digit t, dropWhile is_digit t) else ([], s)
      | [] \<Rightarrow> ([], s))"

definition scan_exp :: "string \<Rightarrow> string \<times> string" where
  "scan_exp s =
     (case s of
        c # t \<Rightarrow>
          if c = CHR ''e'' \<or> c = CHR ''E'' then
            (case t of
               g # u \<Rightarrow>
                 if (g = CHR ''+'' \<or> g = CHR ''-'') \<and> takeWhile is_digit u \<noteq> []
                 then (c # g # takeWhile is_digit u, dropWhile is_digit u)
                 else if takeWhile is_digit t \<noteq> []
                 then (c # takeWhile is_digit t, dropWhile is_digit t)
                 else ([], s)
             | [] \<Rightarrow> ([], s))
          else ([], s)
      | [] \<Rightarrow> ([], s))"

definition scan_int :: "string \<Rightarrow> (string \<times> string) option" where
  "scan_int s =
     (case s of
        [] \<Rightarrow> None
      | d # t \<Rightarrow>
          if d = CHR ''0'' then Some ([d], t)
          else if is_digit d then Some (d # takeWhile is_digit t, dropWhile is_digit t)
          else None)"

definition scan_number :: "string \<Rightarrow> (pyval \<times> string) option" where
  "scan_number s =
     (let sign = (if prefix ''-'' s then ''-'' else []) in
      case scan_int (drop (length sign) s) of
        None \<Rightarrow> None
      | Some (digits, r) \<Rightarrow>
          (let (frac, r1) = scan_frac r; (ex, r2) = scan_exp r1 in
           if frac = [] \<and> ex = []
           then Some (PInt ((if sign = [] then 1 else - 1)
                             * foldl (\<lambda>a d. 10 * a + digit_val d) 0 digits), r2)
           else Some (PFloat (sign @ digits @ frac @ ex), r2)))"

text \<open>\<^verbatim>\<open>dict(pairs)\<close>: a repeated key keeps its first place and takes the last value.\<close>

definition dict_of :: "(string \<times> pyval) list \<Rightarrow> (string \<times> pyval) list" where
  "dict_of ps = foldl (\<lambda>d (k, v). AList.update k v d) [] ps"

text \<open>
  \<^verbatim>\<open>scan_once\<close>, \<^verbatim>\<open>JSONArray\<close> and \<^verbatim>\<open>JSONObject\<close>. \<open>scan_array\<close> starts at an element and
  \<open>scan_object\<close> at the quote of a key. The first argument bounds the depth of the calls;
  a character is read at least every second call.
\<close>

fun scan_once :: "nat \<Rightarrow> string \<Rightarrow> (pyval \<times> string) option"
  and scan_array :: "nat \<Rightarrow> string \<Rightarrow> (pyval list \<times> string) option"
  and scan_object :: "nat \<Rightarrow> string \<Rightarrow> ((string \<times> pyval) list \<times> string) option"
where
  "scan_once 0 s = None"
| "scan_once (Suc n) s =
     (case s of
        [] \<Rightarrow> None
      | c # t \<Rightarrow>
          if c = CHR 0x22 then map_option (apfst PStr) (scanstring t)
          else if c = CHR ''{'' then
            (case skip_ws t of
               [] \<Rightarrow> None
             | c' # t' \<Rightarrow>
                 if c' = CHR ''}'' then Some (PDict [], t')
                 else map_option (apfst (\<lambda>ps. PDict (dict_of ps))) (scan_object n (c' # t')))
          else if c = CHR ''['' then
            (case skip_ws t of
               [] \<Rightarrow> None
             | c' # t' \<Rightarrow>
                 if c' = CHR '']'' then Some (PList [], t')
                 else map_option (apfst PList) (scan_array n (c' # t')))
          else if prefix ''null'' s then Some (PNone, drop 4 s)
          else if prefix ''true'' s then Some (PBool True, drop 4 s)
          else if prefix ''false'' s then Some (PBool False, drop 5 s)
          else
            (case scan_number s of
               Some r \<Rightarrow> Some r
             | None \<Rightarrow>
                 if prefix ''NaN'' s then Some (PFloat ''NaN'', drop 3 s)
                 else if prefix ''Infinity'' s then Some (PFloat ''Infinity'', drop 8 s)
                 else if prefix ''-Infinity'' s then Some (PFloat ''-Infinity'', drop 9 s)
                 else None))"
| "scan_array 0 s = None"
| "scan_array (Suc n) s =
     (case scan_once n s of
        None \<Rightarrow> None
      | Some (v, r) \<Rightarrow>
          (case skip_ws r of
             [] \<Rightarrow> None
           | c # t \<Rightarrow>
               if c = CHR '']'' then Some ([v], t)
               else if c = CHR '','' then map_option (apfst ((#) v)) (scan_array n (skip_ws t))
               else None))"
| "scan_object 0 s = None"
| "scan_object (Suc n) s =
     (case s of
        [] \<Rightarrow> None
      | q # t \<Rightarrow>
          if q \<noteq> CHR 0x22 then None
          else
            (case scanstring t of
               None \<Rightarrow> None
             | Some (key, r) \<Rightarrow>
                 (case skip_ws r of
                    [] \<Rightarrow> None
                  | c # r' \<Rightarrow>
                      if c \<noteq> CHR '':'' then None
                      else
                        (case scan_once n (skip_ws r') of
                           None \<Rightarrow> None
                         | Some (v, r'') \<Rightarrow>
                             (case skip_ws r'' of
                                [] \<Rightarrow> None
                              | d # u \<Rightarrow>
                                  if d = CHR ''}'' then Some ([(key, v)], u)
                                  else if d = CHR '','' then
                                    map_option (apfst ((#) (key, v))) (scan_object n (skip_ws u))
                                  else None)))))"

text \<open>
  \<^verbatim>\<open>json.loads(s)\<close>: \<open>None\<close> stands for \<^verbatim>\<open>JSONDecodeError\<close>. A leading byte order mark is
  refused, and only white space may follow the value.
\<close>

definition json_loads :: "string \<Rightarrow> pyval option" where
  "json_loads s =
     (if prefix [CHR 0xEF, CHR 0xBB, CHR 0xBF] s then None
      else
        (case scan_once (2 * length s + 2) (skip_ws s) of
           None \<Rightarrow> None
         | Some (v, r) \<Rightarrow> if skip_ws r = [] then Some v else None))"

section \<open>Exceptions\<close>

text \<open>
  What the handlers of the planner tell apart: \<^verbatim>\<open>ImportError\<close>, \<^verbatim>\<open>AttributeError\<close> and
  \<^verbatim>\<open>ValueError\<close> (each with its subclasses), any other subclass of \<^verbatim>\<open>Exception\<close>, and the
  exceptions that derive from \<^verbatim>\<open>BaseException\<close> only (\<^verbatim>\<open>KeyboardInterrupt\<close>, \<^verbatim>\<open>SystemExit\<close>,
  \<^verbatim>\<open>GeneratorExit\<close>), which \<^verbatim>\<open>except Exception\<close> does not catch. An exception carries the text
  \<^verbatim>\<open>str(e)\<close>.
\<close>

datatype exn_class = ImportError | AttributeError | ValueError | OtherException | BaseExceptionOnly

datatype exn = Exn exn_class string

section \<open>The plan compiler\<close>

text \<open>The clean-up of the span between the first \<open>[\<close> and the last \<open>]\<close>, rule by rule.\<close>

definition strip_markers :: "string \<Rightarrow> string" where
  "strip_markers s = py_replace (py_replace (py_replace s ''```json'' []) ''```'' []) ''**'' []"

definition fix_literals :: "string \<Rightarrow> string" where
  "fix_literals s =
     py_replace (py_replace
       (py_replace (py_replace
         (py_replace (py_replace s '': True'' '': true'') '', True'' '', true'')
         '': False'' '': false'') '', False'' '', false'')
       '': None'' '': null'') '', None'' '', null''"

definition fix_quotes :: "string \<Rightarrow> string" where
  "fix_quotes s = py_replace s [CHR 0x27] [CHR 0x22]"

definition cleanup_bracketed :: "string \<Rightarrow> string" where
  "cleanup_bracketed s =
     py_strip (fix_quotes (py_replace (fix_literals (strip_markers s)) '' null'' '' null''))"

text \<open>The fall-back when no bracket pair is found: the colon rules and the quotes only.\<close>

definition fix_literals_fallback :: "string \<Rightarrow> string" where
  "fix_literals_fallback s =
     py_replace (py_replace (py_replace s '': True'' '': true'') '': False'' '': false'')
       '': None'' '': null''"

definition cleanup_fallback :: "string \<Rightarrow> string" where
  "cleanup_fallback s =
     fix_quotes (py_replace (fix_literals_fallback s) '' null'' '' null'')"

text \<open>The brace-balancing step.\<close>

definition balance_braces :: "string \<Rightarrow> string" where
  "balance_braces json_plan_str =
     (let open_braces = py_count json_plan_str ''{'';
          close_braces = py_count json_plan_str ''}''
      in if open_braces > close_braces
         then json_plan_str @ replicate (open_braces - close_braces) CHR ''}''
         else json_plan_str)"

text \<open>
  The whole repair of \<^verbatim>\<open>call_llm\<close>, from the stripped reply \<open>raw_output\<close> to the text handed to
  \<^verbatim>\<open>json.loads\<close>.
\<close>

definition repair :: "string \<Rightarrow> string" where
  "repair raw_output =
     (let start_index = py_find raw_output ''['';
          end_index = py_rfind raw_output '']''
      in balance_braces
           (if start_index \<noteq> - 1 \<and> end_index \<noteq> - 1 \<and> end_index > start_index
            then cleanup_bracketed (py_slice raw_output start_index (end_index + 1))
            else cleanup_fallback raw_output))"

text \<open>
  The structural checks after parsing. The loop raises \<^verbatim>\<open>ValueError\<close> at the first item that is
  not a dictionary or lacks one of the two keys; \<open>Inl\<close> carries the message.
\<close>

definition sq :: string where
  "sq = [CHR 0x27]"

fun check_items :: "pyval list \<Rightarrow> string option" where
  "check_items [] = None"
| "check_items (item # rest) =
     (case item of
        PDict d \<Rightarrow>
          if \<not> dict_has d ''apprentice'' \<or> \<not> dict_has d ''payload''
          then Some (''Dictionary item missing '' @ sq @ ''apprentice'' @ sq @ '' or ''
                       @ sq @ ''payload'' @ sq @ ''.'')
          else check_items rest
      | _ \<Rightarrow> Some ''Item in parsed JSON list is not a dictionary.'')"

definition validate :: "pyval \<Rightarrow> string + pyval list" where
  "validate parsed_json =
     (case parsed_json of
        PList items \<Rightarrow> (case check_items items of None \<Rightarrow> Inr items | Some msg \<Rightarrow> Inl msg)
      | _ \<Rightarrow> Inl ''Parsed JSON is not a list.'')"

text \<open>
  What \<^verbatim>\<open>call_llm\<close> does with a request. \<open>Plan\<close> is the returned list. \<open>Rejected\<close> is the handler of
  \<^verbatim>\<open>json.JSONDecodeError\<close> and \<^verbatim>\<open>ValueError\<close>, which prints the reason, the raw output and the
  text it tried to parse, and returns \<^verbatim>\<open>None\<close>. \<open>LLMError\<close> is the handler of every other
  \<^verbatim>\<open>Exception\<close>, which prints the exception and returns \<^verbatim>\<open>None\<close>.
\<close>

datatype reason = NotJSON | Invalid string

datatype planning =
    Plan "pyval list"
  | Rejected reason string string
  | LLMError string

text \<open>
  \<open>chat\<close> is the model service: the \<^verbatim>\<open>content\<close> of its reply to a request, or the exception the
  call raises. \<open>loads\<close> is \<^verbatim>\<open>json.loads\<close>.
\<close>

definition call_llm ::
  "(string \<Rightarrow> exn + string) \<Rightarrow> (string \<Rightarrow> pyval option) \<Rightarrow> string \<Rightarrow> exn + planning" where
  "call_llm chat loads user_request =
     (case chat user_request of
        Inl (Exn cls msg) \<Rightarrow>
          if cls = ValueError then Inr (Rejected (Invalid msg) [] [])
          else if cls = BaseExceptionOnly then Inl (Exn cls msg)
          else Inr (LLMError msg)
      | Inr content \<Rightarrow>
          (let raw_output = py_strip content;
               json_plan_str = repair raw_output
           in case loads json_plan_str of
                None \<Rightarrow> Inr (Rejected NotJSON raw_output json_plan_str)
              | Some parsed_json \<Rightarrow>
                  (case validate parsed_json of
                     Inl msg \<Rightarrow> Inr (Rejected (Invalid msg) raw_output json_plan_str)
                   | Inr items \<Rightarrow> Inr (Plan items))))"

text \<open>The value \<^verbatim>\<open>call_llm\<close> returns to \<^verbatim>\<open>handle_request\<close>.\<close>

definition returned :: "planning \<Rightarrow> pyval" where
  "returned p = (case p of Plan items \<Rightarrow> PList items | _ \<Rightarrow> PNone)"

section \<open>The step executor\<close>

text \<open>
  Whether the \<^verbatim>\<open>float\<close> of a literal is other than zero. \<^verbatim>\<open>float\<close> rounds the decimal value
  \<open>m * 10 ^ x\<close> of the literal to the nearest double, ties to even, and the smallest double
  above zero is \<open>2 ^ -1074\<close>: the result is zero exactly when the value is at most
  \<open>2 ^ -1075\<close>. The sign plays no part.
\<close>

definition signed_val :: "string \<Rightarrow> int" where
  "signed_val s =
     (case s of
        [] \<Rightarrow> 0
      | c # t \<Rightarrow>
          if c = CHR ''-'' then - foldl (\<lambda>a d. 10 * a + digit_val d) 0 t
          else if c = CHR ''+'' then foldl (\<lambda>a d. 10 * a + digit_val d) 0 t
          else foldl (\<lambda>a d. 10 * a + digit_val d) 0 s)"

definition float_nonzero :: "string \<Rightarrow> bool" where
  "float_nonzero f =
     (if f \<in> set [''NaN'', ''Infinity'', ''-Infinity''] then True
      else
        (let body = (if prefix ''-'' f then drop 1 f else f);
             mantissa = takeWhile (\<lambda>c. c \<noteq> CHR ''e'' \<and> c \<noteq> CHR ''E'') body;
             exponent = drop (length mantissa + 1) body;
             whole = takeWhile (\<lambda>c. c \<noteq> CHR ''.'') mantissa;
             fraction = drop (length whole + 1) mantissa;
             m = foldl (\<lambda>a d. 10 * a + digit_val d) 0 (whole @ fraction);
             x = signed_val exponent - int (length fraction)
         in if 0 \<le> x then 0 < m else 10 ^ nat (- x) < m * 2 ^ 1075))"

text \<open>Truth value testing.\<close>

definition py_truthy :: "pyval \<Rightarrow> bool" where
  "py_truthy v =
     (case v of
        PNone \<Rightarrow> False
      | PBool b \<Rightarrow> b
      | PInt i \<Rightarrow> i \<noteq> 0
      | PFloat f \<Rightarrow> float_nonzero f
      | PStr s \<Rightarrow> s \<noteq> []
      | PList xs \<Rightarrow> xs \<noteq> []
      | PDict d \<Rightarrow> d \<noteq> [])"

text \<open>
  A tool's \<^verbatim>\<open>run\<close> acts on the outside world \<open>'w\<close> and returns a value or raises. A module may
  lack \<^verbatim>\<open>run\<close>. \<open>import_module\<close> is \<^verbatim>\<open>importlib.import_module\<close>: the module of a name, or the
  exception the import raises.
\<close>

type_synonym 'w tool = "pyval \<Rightarrow> 'w \<Rightarrow> (exn + pyval) \<times> 'w"

datatype 'w pymodule = Module "'w tool option"

text \<open>
  The state of a run: the outside world, and the calls of \<^verbatim>\<open>run\<close> made so far (module name and
  payload), kept to tell which tools were invoked.
\<close>

record 'w run_state =
  world :: 'w
  invoked :: "(string \<times> pyval) list"

definition namespace :: string where
  "namespace = ''aura_core.apprentices.''"

text \<open>The two status glyphs, U+274C and U+2705, in UTF-8.\<close>

definition cross_mark :: string where
  "cross_mark = [CHR 0xE2, CHR 0x9D, CHR 0x8C]"

definition check_mark :: string where
  "check_mark = [CHR 0xE2, CHR 0x9C, CHR 0x85]"

text \<open>The flag \<^verbatim>\<open>execute_step\<close> returns with an output that \<^verbatim>\<open>run\<close> returned.\<close>

definition classify :: "pyval \<Rightarrow> bool" where
  "classify output =
     (case output of
        PStr s \<Rightarrow>
          if py_startswith (py_lower (py_strip s)) [''error:'', cross_mark] then False
          else if py_startswith (py_lower (py_strip s))
                    [''success:'', check_mark, ''--- presentation saved'']
          then True
          else True
      | _ \<Rightarrow> True)"

text \<open>
  The body of the \<^verbatim>\<open>try\<close> block up to the output: the import, the lookup of \<^verbatim>\<open>run\<close> and the call.
\<close>

definition invoke ::
  "(string \<Rightarrow> exn + 'w pymodule) \<Rightarrow> string \<Rightarrow> pyval \<Rightarrow> 'w run_state
     \<Rightarrow> (exn + pyval) \<times> 'w run_state" where
  "invoke import_module module_name payload st =
     (case import_module module_name of
        Inl e \<Rightarrow> (Inl e, st)
      | Inr (Module None) \<Rightarrow>
          (Inl (Exn AttributeError
                  (''module '' @ sq @ module_name @ sq @ '' has no attribute '' @ sq @ ''run'' @ sq)),
           st)
      | Inr (Module (Some run)) \<Rightarrow>
          (case run payload (world st) of
             (r, w) \<Rightarrow> (r, st\<lparr>world := w, invoked := invoked st @ [(module_name, payload)]\<rparr>)))"

text \<open>The three \<^verbatim>\<open>except\<close> clauses, in their order; \<open>None\<close> when none of them catches.\<close>

definition error_msg :: "string \<Rightarrow> exn \<Rightarrow> string option" where
  "error_msg module_name e =
     (case e of Exn cls msg \<Rightarrow>
        if cls = ImportError
        then Some (''Error: Could not find module '' @ sq @ module_name @ sq @ ''.'')
        else if cls = AttributeError
        then Some (''Critical error: Module '' @ sq @ module_name @ sq
                     @ '' does not have a '' @ sq @ ''run'' @ sq @ '' function. '' @ msg)
        else if cls \<noteq> BaseExceptionOnly
        then Some (''Critical error executing '' @ module_name @ '': '' @ msg)
        else None)"

text \<open>
  \<^verbatim>\<open>execute_step(step, previous_output)\<close>: the pair it returns, or the exception that leaves it.
  \<^verbatim>\<open>startswith\<close> on a name that is true and not a string raises \<^verbatim>\<open>AttributeError\<close> before the
  \<^verbatim>\<open>try\<close> block. The step dictionary is also updated with the full name, which nothing reads
  afterwards.
\<close>

definition execute_step ::
  "(pyval \<Rightarrow> string) \<Rightarrow> (string \<Rightarrow> exn + 'w pymodule) \<Rightarrow> pyval \<Rightarrow> pyval \<Rightarrow> 'w run_state
     \<Rightarrow> (exn + pyval \<times> bool) \<times> 'w run_state" where
  "execute_step repr import_module step previous_output st =
     (case step of
        PDict d \<Rightarrow>
          (let module_name = dict_get d ''apprentice'';
               payload = dict_get d ''payload''
           in case module_name of
                PStr name \<Rightarrow>
                  (let module_name =
                         (if name \<noteq> [] \<and> \<not> py_startswith name [namespace]
                          then namespace @ name else name)
                   in if module_name = [] \<or> payload = PNone then (Inr (PNone, False), st)
                      else
                        (let payload = replace_prev_output repr payload previous_output
                         in case invoke import_module module_name payload st of
                              (Inr output, st') \<Rightarrow> (Inr (output, classify output), st')
                            | (Inl e, st') \<Rightarrow>
                                (case error_msg module_name e of
                                   Some msg \<Rightarrow> (Inr (PStr msg, False), st')
                                 | None \<Rightarrow> (Inl e, st'))))
              | _ \<Rightarrow>
                  if py_truthy module_name
                  then (Inl (Exn AttributeError
                               (''object has no attribute '' @ sq @ ''startswith'' @ sq)), st)
                  else (Inr (PNone, False), st))
      | _ \<Rightarrow> (Inl (Exn AttributeError (''object has no attribute '' @ sq @ ''get'' @ sq)), st))"

text \<open>
  The loop over \<^verbatim>\<open>enumerate(plan)\<close>, from the step of index \<open>i\<close> on, with the loop variable
  \<^verbatim>\<open>previous_step_output\<close>. It ends when the steps are exhausted, with the last output in
  \<^verbatim>\<open>previous_step_output\<close>, or at the \<^verbatim>\<open>break\<close>, which follows the message that step \<open>i + 1\<close>
  failed with its output.
\<close>

datatype loop_exit = Exhausted pyval | Break nat pyval

fun run_steps ::
  "(pyval \<Rightarrow> string) \<Rightarrow> (string \<Rightarrow> exn + 'w pymodule) \<Rightarrow> nat \<Rightarrow> pyval list \<Rightarrow> pyval
     \<Rightarrow> 'w run_state \<Rightarrow> (exn + loop_exit) \<times> 'w run_state" where
  "run_steps repr import_module i [] previous_step_output st =
     (Inr (Exhausted previous_step_output), st)"
| "run_steps repr import_module i (step # rest) previous_step_output st =
     (case execute_step repr import_module step previous_step_output st of
        (Inl e, st') \<Rightarrow> (Inl e, st')
      | (Inr (output, success), st') \<Rightarrow>
          if \<not> success then (Inr (Break (i + 1) output), st')
          else run_steps repr import_module (i + 1) rest output st')"

text \<open>
  \<^verbatim>\<open>handle_request\<close> prints how the task ended: no valid plan, completed, or failed, after the
  message naming the step, counted from 1, and its output. An exception that leaves
  \<^verbatim>\<open>call_llm\<close> or \<^verbatim>\<open>execute_step\<close> leaves \<^verbatim>\<open>handle_request\<close> too.
\<close>

datatype outcome = NoValidPlan | Completed | Failed nat pyval

definition report :: "(exn + loop_exit) \<times> 'w run_state \<Rightarrow> (exn + outcome) \<times> 'w run_state" where
  "report r =
     (case r of
        (Inl e, st') \<Rightarrow> (Inl e, st')
      | (Inr (Exhausted _), st') \<Rightarrow> (Inr Completed, st')
      | (Inr (Break n output), st') \<Rightarrow> (Inr (Failed n output), st'))"

definition handle_request ::
  "(string \<Rightarrow> exn + string) \<Rightarrow> (string \<Rightarrow> pyval option) \<Rightarrow> (pyval \<Rightarrow> string)
     \<Rightarrow> (string \<Rightarrow> exn + 'w pymodule) \<Rightarrow> string \<Rightarrow> 'w run_state
     \<Rightarrow> (exn + outcome) \<times> 'w run_state" where
  "handle_request chat loads repr import_module user_request st =
     (case call_llm chat loads user_request of
        Inl e \<Rightarrow> (Inl e, st)
      | Inr p \<Rightarrow>
          (case returned p of
             PList plan \<Rightarrow>
               if plan = [] then (Inr NoValidPlan, st)
               else report (run_steps repr import_module 0 plan PNone st)
           | _ \<Rightarrow> (Inr NoValidPlan, st)))"

section \<open>A registry for the examples\<close>

text \<open>
  Tools in the shape the executor expects, for the worked examples below. The world is the
  list of the texts written so far: the reader returns a text, the summarizer reports an
  error in its output, the writer records its content, the file manager returns a list, the
  document reader raises an ordinary exception, the process manager is interrupted from the
  keyboard, and the cache manager is a module without \<^verbatim>\<open>run\<close>. No other module exists.
\<close>

definition example_modules :: "string \<Rightarrow> exn + (pyval list) pymodule" where
  "example_modules name =
     (if name = ''aura_core.apprentices.file_reader''
      then Inr (Module (Some (\<lambda>payload w. (Inr (PStr ''draft''), w))))
      else if name = ''aura_core.apprentices.summarizer''
      then Inr (Module (Some (\<lambda>payload w. (Inr (PStr ''Error: model unavailable''), w))))
      else if name = ''aura_core.apprentices.file_writer''
      then Inr (Module (Some (\<lambda>payload w.
             (Inr (PStr ''Success: saved''),
              w @ [case payload of PDict d \<Rightarrow> dict_get d ''content'' | _ \<Rightarrow> PNone]))))
      else if name = ''aura_core.apprentices.file_manager''
      then Inr (Module (Some (\<lambda>payload w. (Inr (PList [PStr ''a.txt'', PStr ''b.txt'']), w))))
      else if name = ''aura_core.apprentices.doc_reader''
      then Inr (Module (Some (\<lambda>payload w. (Inl (Exn OtherException ''boom''), w))))
      else if name = ''aura_core.apprentices.process_manager''
      then Inr (Module (Some (\<lambda>payload w. (Inl (Exn BaseExceptionOnly ''KeyboardInterrupt''), w))))
      else if name = ''aura_core.apprentices.cache_manager''
      then Inr (Module None)
      else Inl (Exn ImportError (''No module named '' @ sq @ name @ sq)))"

definition example_repr :: "pyval \<Rightarrow> string" where
  "example_repr v = (case v of PNone \<Rightarrow> ''None'' | _ \<Rightarrow> ''<value>'')"

definition start :: "(pyval list) run_state" where
  "start = \<lparr>world = [], invoked = []\<rparr>"

definition step_of :: "string \<Rightarrow> (string \<times> pyval) list \<Rightarrow> pyval" where
  "step_of tool payload = PDict [(''apprentice'', PStr tool), (''payload'', PDict payload)]"

text \<open>
  A reply of the model with three steps, the second of which reports an error, and the plan it
  parses to.
\<close>

definition example_reply :: string where
  "example_reply =
     ''[{\"apprentice\": \"file_reader\", \"payload\": {\"filename\": \"notes.txt\"}}, ''
     @ ''{\"apprentice\": \"aura_core.apprentices.summarizer\", \"payload\": {\"text\": \"$PREV_OUTPUT\"}}, ''
     @ ''{\"apprentice\": \"file_writer\", \"payload\": {\"filename\": \"out.txt\", \"content\": \"$PREV_OUTPUT\"}}]''"

definition example_plan :: "pyval list" where
  "example_plan =
     [step_of ''file_reader'' [(''filename'', PStr ''notes.txt'')],
      step_of ''aura_core.apprentices.summarizer'' [(''text'', PStr ''$PREV_OUTPUT'')],
      step_of ''file_writer'' [(''filename'', PStr ''out.txt''), (''content'', PStr ''$PREV_OUTPUT'')]]"

text \<open>
  The reply of the end-to-end scenario: a fenced array in single quotes with one step for the
  writer.
\<close>

definition quoted :: "string \<Rightarrow> string" where
  "quoted s = sq @ s @ sq"

definition scenario_reply :: string where
  "scenario_reply =
     ''```json'' @ [CHR 0x0A]
     @ ''[{'' @ quoted ''apprentice'' @ '': '' @ quoted ''file_writer'' @ '', ''
     @ quoted ''payload'' @ '': {'' @ quoted ''filename'' @ '': '' @ quoted ''out.txt'' @ '', ''
     @ quoted ''content'' @ '': '' @ quoted ''hi'' @ ''}}]''
     @ [CHR 0x0A] @ ''```''"


section \<open>The substitution walk: claim C2\<close>

lemma map_of_replace_prev_output:
  "map_of (map (map_prod id (\<lambda>v. replace_prev_output repr v out)) kvs) k
     = map_option (\<lambda>v. replace_prev_output repr v out) (map_of kvs k)"
  by (induction kvs) auto

lemma child_replace_prev_output:
  "child (replace_prev_output repr v out) sel
     = map_option (\<lambda>x. replace_prev_output repr x out) (child v sel)"
proof (cases v)
  case (PList xs)
  then show ?thesis by (cases sel) auto
next
  case (PDict kvs)
  then show ?thesis by (cases sel) (auto simp: map_of_replace_prev_output)
qed (cases sel; simp)+

lemma at_path_replace_prev_output:
  "at_path (replace_prev_output repr v out) p
     = map_option (\<lambda>x. replace_prev_output repr x out) (at_path v p)"
proof (induction p arbitrary: v)
  case Nil
  then show ?case by simp
next
  case (Cons sel p)
  show ?case
    by (cases "child v sel") (simp_all add: child_replace_prev_output Cons.IH)
qed

text \<open>
  Claim C2 (payload substitution). The walk keeps the shape of the payload: a path leads
  somewhere in the result exactly when it does in the payload, a dictionary keeps its keys in
  their order and a list its length. Wherever the payload holds the string \<open>$PREV_OUTPUT\<close>, at
  any depth, as a dictionary value or as a list element, the result holds \<^verbatim>\<open>str\<close> of the
  previous output, or the empty string when the previous output is \<^verbatim>\<open>None\<close>, as it is at the
  first step. Every other string, number, boolean or \<^verbatim>\<open>None\<close> is where it was, unchanged.
\<close>

theorem substitution_walk:
  "(at_path (replace_prev_output repr payload out) p = None \<longleftrightarrow> at_path payload p = None) \<and>
   (at_path payload p = Some (PStr ''$PREV_OUTPUT'') \<longrightarrow>
      at_path (replace_prev_output repr payload out) p
        = Some (PStr (if out = PNone then [] else py_str repr out))) \<and>
   (\<forall>x. at_path payload p = Some x \<and> is_scalar x \<and> x \<noteq> PStr ''$PREV_OUTPUT'' \<longrightarrow>
      at_path (replace_prev_output repr payload out) p = Some x) \<and>
   (\<forall>kvs. at_path payload p = Some (PDict kvs) \<longrightarrow>
      (\<exists>kvs'. at_path (replace_prev_output repr payload out) p = Some (PDict kvs') \<and>
         map fst kvs' = map fst kvs)) \<and>
   (\<forall>xs. at_path payload p = Some (PList xs) \<longrightarrow>
      (\<exists>ys. at_path (replace_prev_output repr payload out) p = Some (PList ys) \<and>
         length ys = length xs))"
  unfolding at_path_replace_prev_output
  apply (intro conjI allI impI)
      apply simp
     apply (simp add: PREV_OUTPUT_def)
    apply (auto simp: is_scalar_def PREV_OUTPUT_def split: pyval.splits)[1]
   apply (auto simp: comp_def)
  done

text \<open>
  The example of the specification, with a sibling number: \<open>{"a": ["$PREV_OUTPUT", {"b":
  "$PREV_OUTPUT", "c": 7}]}\<close> after the output \<open>X\<close>, and the same payload at the first step.
\<close>

theorem substitution_walk_witness:
  "at_path (replace_prev_output example_repr
      (PDict [(''a'', PList [PStr ''$PREV_OUTPUT'',
                             PDict [(''b'', PStr ''$PREV_OUTPUT''), (''c'', PInt 7)]])])
      (PStr ''X'')) [Key ''a'', Index 1, Key ''b''] = Some (PStr ''X'') \<and>
   at_path (replace_prev_output example_repr
      (PDict [(''a'', PList [PStr ''$PREV_OUTPUT'',
                             PDict [(''b'', PStr ''$PREV_OUTPUT''), (''c'', PInt 7)]])])
      PNone) [Key ''a'', Index 0] = Some (PStr []) \<and>
   at_path (replace_prev_output example_repr
      (PDict [(''a'', PList [PStr ''$PREV_OUTPUT'',
                             PDict [(''b'', PStr ''$PREV_OUTPUT''), (''c'', PInt 7)]])])
      (PStr ''X'')) [Key ''a'', Index 1, Key ''c''] = Some (PInt 7) \<and>
   (\<exists>kvs'. at_path (replace_prev_output example_repr
      (PDict [(''a'', PList [PStr ''$PREV_OUTPUT'',
                             PDict [(''b'', PStr ''$PREV_OUTPUT''), (''c'', PInt 7)]])])
      (PStr ''X'')) [Key ''a'', Index 1] = Some (PDict kvs') \<and> map fst kvs' = [''b'', ''c'']) \<and>
   (\<exists>ys. at_path (replace_prev_output example_repr
      (PDict [(''a'', PList [PStr ''$PREV_OUTPUT'',
                             PDict [(''b'', PStr ''$PREV_OUTPUT''), (''c'', PInt 7)]])])
      (PStr ''X'')) [Key ''a''] = Some (PList ys) \<and> length ys = 2) \<and>
   at_path (replace_prev_output example_repr
      (PDict [(''a'', PList [PStr ''$PREV_OUTPUT'',
                             PDict [(''b'', PStr ''$PREV_OUTPUT''), (''c'', PInt 7)]])])
      (PStr ''X'')) [Key ''z''] = None"
proof -
  let ?payload = "PDict [(''a'', PList [PStr ''$PREV_OUTPUT'',
                                        PDict [(''b'', PStr ''$PREV_OUTPUT''), (''c'', PInt 7)]])]"
  have 1: "at_path ?payload [Key ''a'', Index 1, Key ''b''] = Some (PStr ''$PREV_OUTPUT'')"
    by simp
  have 2: "at_path ?payload [Key ''a'', Index 0] = Some (PStr ''$PREV_OUTPUT'')"
    by simp
  have 3: "at_path ?payload [Key ''a'', Index 1, Key ''c''] = Some (PInt 7) \<and> is_scalar (PInt 7)
             \<and> PInt 7 \<noteq> PStr ''$PREV_OUTPUT''"
    by (simp add: is_scalar_def)
  have 4: "at_path ?payload [Key ''a'', Index 1]
             = Some (PDict [(''b'', PStr ''$PREV_OUTPUT''), (''c'', PInt 7)])"
    by simp
  have 5: "at_path ?payload [Key ''a'']
             = Some (PList [PStr ''$PREV_OUTPUT'',
                            PDict [(''b'', PStr ''$PREV_OUTPUT''), (''c'', PInt 7)]])"
    by simp
  have 6: "at_path ?payload [Key ''z''] = None"
    by simp
  show ?thesis
    using substitution_walk [of example_repr ?payload "PStr ''X''" "[Key ''a'', Index 1, Key ''b'']"]
      substitution_walk [of example_repr ?payload PNone "[Key ''a'', Index 0]"]
      substitution_walk [of example_repr ?payload "PStr ''X''" "[Key ''a'', Index 1, Key ''c'']"]
      substitution_walk [of example_repr ?payload "PStr ''X''" "[Key ''a'', Index 1]"]
      substitution_walk [of example_repr ?payload "PStr ''X''" "[Key ''a'']"]
      substitution_walk [of example_repr ?payload "PStr ''X''" "[Key ''z'']"]
      1 2 3 4 5 6
    by (simp add: py_str_def)
qed

section \<open>Brace balancing: claim C5\<close>

lemma py_count_char: "py_count s [c] = count_list s c"
  by (induction s) auto

lemma count_list_replicate: "count_list (replicate n x) y = (if x = y then n else 0)"
  by (induction n) auto

text \<open>
  Claim C5 (brace-balance repair). When the text has more \<open>{\<close> than \<open>}\<close>, the step appends as
  many \<open>}\<close> as are missing, and the two counts are equal afterwards; otherwise it returns the
  text as it is.
\<close>

theorem brace_balance:
  "(py_count s ''{'' > py_count s ''}'' \<longrightarrow>
      balance_braces s = s @ replicate (py_count s ''{'' - py_count s ''}'') CHR ''}'' \<and>
      py_count (balance_braces s) ''{'' = py_count (balance_braces s) ''}'') \<and>
   (\<not> py_count s ''{'' > py_count s ''}'' \<longrightarrow> balance_braces s = s)"
  by (auto simp: balance_braces_def Let_def py_count_char count_list_replicate)

theorem brace_balance_witness:
  "py_count ''[{\"a\": {\"b\": 1'' ''{'' > py_count ''[{\"a\": {\"b\": 1'' ''}'' \<and>
   balance_braces ''[{\"a\": {\"b\": 1'' = ''[{\"a\": {\"b\": 1}}'' \<and>
   py_count (balance_braces ''[{\"a\": {\"b\": 1'') ''{''
     = py_count (balance_braces ''[{\"a\": {\"b\": 1'') ''}'' \<and>
   \<not> py_count ''[{}]'' ''{'' > py_count ''[{}]'' ''}'' \<and>
   balance_braces ''[{}]'' = ''[{}]''"
  using brace_balance [of "''[{\"a\": {\"b\": 1''"] brace_balance [of "''[{}]''"]
  by simp

section \<open>The executor: claims C1, C3 and C4\<close>

lemma run_steps_append:
  "run_steps repr imp k pre prev st = (Inr (Exhausted p1), st1) \<Longrightarrow>
   run_steps repr imp k (pre @ rest) prev st = run_steps repr imp (k + length pre) rest p1 st1"
proof (induction pre arbitrary: k prev st)
  case Nil
  then show ?case by simp
next
  case (Cons step pre)
  then show ?case
    by (auto split: prod.splits sum.splits if_splits)
qed

lemma invoke_invoked:
  "invoke imp name payload st = (r, st') \<Longrightarrow>
   invoked st' = invoked st \<or> invoked st' = invoked st @ [(name, payload)]"
  by (auto simp: invoke_def split: sum.splits pymodule.splits option.splits prod.splits)

lemma execute_step_invoked:
  "execute_step repr imp step prev st = (r, st') \<Longrightarrow>
   invoked st' = invoked st \<or> (\<exists>c. invoked st' = invoked st @ [c])"
  unfolding execute_step_def Let_def
  by (auto split: pyval.splits if_splits prod.splits sum.splits option.splits
      dest: invoke_invoked)

lemma example_reply_plan:
  "call_llm (\<lambda>request. Inr example_reply) json_loads ''summarize my notes''
     = Inr (Plan example_plan)"
  by code_simp

text \<open>
  Claim C1 (fail-fast halting). Take any plan and any index \<open>i\<close> in it. When the steps before
  \<open>i\<close> have run and succeeded, leaving the previous output \<open>prev\<close> and the state \<open>st_i\<close>, and
  \<^verbatim>\<open>execute_step\<close> returns the flag \<^verbatim>\<open>False\<close> with the output \<open>out\<close> for step \<open>i\<close>, the loop
  breaks there: it reports step \<open>i + 1\<close> (counted from 1) with \<open>out\<close>, and the state at the
  end is the one step \<open>i\<close> left, whatever steps follow in the plan. The calls of \<^verbatim>\<open>run\<close> made
  are those made on reaching step \<open>i\<close> and at most the one of step \<open>i\<close>. For a request whose
  plan this is, \<^verbatim>\<open>handle_request\<close> ends as failed at step \<open>i + 1\<close> with \<open>out\<close>.
\<close>

theorem fail_fast:
  assumes "i < length plan"
    and "run_steps repr imp 0 (take i plan) PNone st = (Inr (Exhausted prev), st_i)"
    and "execute_step repr imp (plan ! i) prev st_i = (Inr (out, False), st')"
  shows "run_steps repr imp 0 plan PNone st = (Inr (Break (i + 1) out), st') \<and>
         (invoked st' = invoked st_i \<or> (\<exists>c. invoked st' = invoked st_i @ [c])) \<and>
         (call_llm chat loads req = Inr (Plan plan) \<longrightarrow>
            handle_request chat loads repr imp req st = (Inr (Failed (i + 1) out), st'))"
proof -
  have split: "plan = take i plan @ plan ! i # drop (Suc i) plan"
    using assms(1) by (simp add: id_take_nth_drop)
  have "run_steps repr imp 0 (take i plan @ plan ! i # drop (Suc i) plan) PNone st
          = run_steps repr imp (0 + length (take i plan)) (plan ! i # drop (Suc i) plan) prev st_i"
    by (rule run_steps_append [OF assms(2)])
  also have "\<dots> = (Inr (Break (i + 1) out), st')"
    using assms(1,3) by simp
  finally have run: "run_steps repr imp 0 plan PNone st = (Inr (Break (i + 1) out), st')"
    using split by simp
  have ne: "plan \<noteq> []"
    using assms(1) by auto
  show ?thesis
    using run ne execute_step_invoked [OF assms(3)]
    by (simp add: handle_request_def returned_def report_def)
qed

text \<open>
  The three-step plan whose second step returns \<open>Error: model unavailable\<close>: the run is
  reported as failed at step 2, the reader and the summarizer were called, the writer was
  not, and nothing was written.
\<close>

theorem fail_fast_witness:
  "run_steps example_repr example_modules 0 example_plan PNone start
     = (Inr (Break 2 (PStr ''Error: model unavailable'')),
        \<lparr>world = [],
         invoked = [(''aura_core.apprentices.file_reader'', PDict [(''filename'', PStr ''notes.txt'')]),
                    (''aura_core.apprentices.summarizer'', PDict [(''text'', PStr ''draft'')])]\<rparr>) \<and>
   handle_request (\<lambda>request. Inr example_reply) json_loads example_repr example_modules
       ''summarize my notes'' start
     = (Inr (Failed 2 (PStr ''Error: model unavailable'')),
        \<lparr>world = [],
         invoked = [(''aura_core.apprentices.file_reader'', PDict [(''filename'', PStr ''notes.txt'')]),
                    (''aura_core.apprentices.summarizer'', PDict [(''text'', PStr ''draft'')])]\<rparr>)"
proof -
  have h0: "1 < length example_plan"
    by (simp add: example_plan_def)
  have h1: "run_steps example_repr example_modules 0 (take 1 example_plan) PNone start
      = (Inr (Exhausted (PStr ''draft'')),
         \<lparr>world = [],
          invoked = [(''aura_core.apprentices.file_reader'',
                      PDict [(''filename'', PStr ''notes.txt'')])]\<rparr>)"
    by code_simp
  have h2: "execute_step example_repr example_modules (example_plan ! 1) (PStr ''draft'')
        \<lparr>world = [],
         invoked = [(''aura_core.apprentices.file_reader'',
                     PDict [(''filename'', PStr ''notes.txt'')])]\<rparr>
      = (Inr (PStr ''Error: model unavailable'', False),
         \<lparr>world = [],
          invoked = [(''aura_core.apprentices.file_reader'', PDict [(''filename'', PStr ''notes.txt'')]),
                     (''aura_core.apprentices.summarizer'', PDict [(''text'', PStr ''draft'')])]\<rparr>)"
    by code_simp
  from fail_fast [OF h0 h1 h2, of "\<lambda>request. Inr example_reply" json_loads "''summarize my notes''"]
    example_reply_plan
  show ?thesis by simp
qed

lemma lower_char_cross:
  "lower_char c = CHR 0xE2 \<longleftrightarrow> c = CHR 0xE2"
  "lower_char c = CHR 0x9D \<longleftrightarrow> c = CHR 0x9D"
  "lower_char c = CHR 0x8C \<longleftrightarrow> c = CHR 0x8C"
  "CHR 0xE2 = lower_char c \<longleftrightarrow> CHR 0xE2 = c"
  "CHR 0x9D = lower_char c \<longleftrightarrow> CHR 0x9D = c"
  "CHR 0x8C = lower_char c \<longleftrightarrow> CHR 0x8C = c"
  by (auto simp: lower_char_def)

lemma prefix_cross_lower: "prefix cross_mark (py_lower t) \<longleftrightarrow> prefix cross_mark t"
proof (cases t)
  case Nil
  then show ?thesis by (simp add: cross_mark_def py_lower_def)
next
  case t: (Cons a t1)
  show ?thesis
  proof (cases t1)
    case Nil
    with t show ?thesis by (simp add: cross_mark_def py_lower_def lower_char_cross)
  next
    case t1: (Cons b t2)
    show ?thesis
    proof (cases t2)
      case Nil
      with t t1 show ?thesis by (simp add: cross_mark_def py_lower_def lower_char_cross)
    next
      case (Cons c t3)
      with t t1 show ?thesis by (simp add: cross_mark_def py_lower_def lower_char_cross)
    qed
  qed
qed

lemma classify_iff:
  "classify out \<longleftrightarrow>
     \<not> (\<exists>s. out = PStr s \<and>
            (prefix ''error:'' (py_lower (py_strip s)) \<or> prefix cross_mark (py_strip s)))"
  by (cases out) (simp_all add: classify_def py_startswith_def prefix_cross_lower)

lemma execute_step_reaches_invoke:
  assumes "dict_get d ''apprentice'' = PStr name" and "name \<noteq> []"
    and "dict_get d ''payload'' \<noteq> PNone"
  shows "execute_step repr imp (PDict d) prev st =
     (case invoke imp (if prefix namespace name then name else namespace @ name)
             (replace_prev_output repr (dict_get d ''payload'') prev) st of
        (Inr out, st') \<Rightarrow> (Inr (out, classify out), st')
      | (Inl e, st') \<Rightarrow>
          (case error_msg (if prefix namespace name then name else namespace @ name) e of
             Some msg \<Rightarrow> (Inr (PStr msg, False), st')
           | None \<Rightarrow> (Inl e, st')))"
  using assms by (simp add: execute_step_def Let_def py_startswith_def namespace_def)

text \<open>
  Claim C3 (result classification). For a step that names a tool and has a payload, when the
  call of the tool returns \<open>out\<close>, \<^verbatim>\<open>execute_step\<close> returns \<open>out\<close> with a flag that is \<^verbatim>\<open>False\<close>
  exactly when \<open>out\<close> is a string whose stripped form starts with \<open>error:\<close>, in any mix of
  upper and lower case, or with the cross mark. Every other output has the flag \<^verbatim>\<open>True\<close>: a
  string that starts with a success marker, a string with no marker, and a value that is
  not a string.
\<close>

theorem result_classification:
  assumes "dict_get d ''apprentice'' = PStr name" and "name \<noteq> []"
    and "dict_get d ''payload'' \<noteq> PNone"
    and "invoke imp (if prefix namespace name then name else namespace @ name)
           (replace_prev_output repr (dict_get d ''payload'') prev) st = (Inr out, st')"
  shows "execute_step repr imp (PDict d) prev st =
           (Inr (out, \<not> (\<exists>s. out = PStr s \<and>
                     (prefix ''error:'' (py_lower (py_strip s)) \<or> prefix cross_mark (py_strip s)))),
            st')"
  using assms(4) by (simp add: execute_step_reaches_invoke [OF assms(1-3)] classify_iff)

text \<open>
  The file manager returns the list \<open>["a.txt", "b.txt"]\<close>, which counts as a success; the
  summarizer returns \<open>Error: model unavailable\<close>, which counts as a failure.
\<close>

theorem result_classification_witness:
  "execute_step example_repr example_modules
      (PDict [(''apprentice'', PStr ''file_manager''), (''payload'', PDict [(''action'', PStr ''list'')])])
      PNone start
     = (Inr (PList [PStr ''a.txt'', PStr ''b.txt''], True),
        \<lparr>world = [],
         invoked = [(''aura_core.apprentices.file_manager'', PDict [(''action'', PStr ''list'')])]\<rparr>) \<and>
   execute_step example_repr example_modules
      (PDict [(''apprentice'', PStr ''summarizer''), (''payload'', PDict [(''text'', PStr ''abc'')])])
      PNone start
     = (Inr (PStr ''Error: model unavailable'', False),
        \<lparr>world = [],
         invoked = [(''aura_core.apprentices.summarizer'', PDict [(''text'', PStr ''abc'')])]\<rparr>)"
proof -
  let ?d1 = "[(''apprentice'', PStr ''file_manager''), (''payload'', PDict [(''action'', PStr ''list'')])]"
  let ?d2 = "[(''apprentice'', PStr ''summarizer''), (''payload'', PDict [(''text'', PStr ''abc'')])]"
  have a1: "dict_get ?d1 ''apprentice'' = PStr ''file_manager''"
    and a2: "dict_get ?d2 ''apprentice'' = PStr ''summarizer''"
    by (simp_all add: dict_get_def)
  have b1: "''file_manager'' \<noteq> []" and b2: "''summarizer'' \<noteq> []"
    by simp_all
  have c1: "dict_get ?d1 ''payload'' \<noteq> PNone" and c2: "dict_get ?d2 ''payload'' \<noteq> PNone"
    by (simp_all add: dict_get_def)
  have i1: "invoke example_modules
        (if prefix namespace ''file_manager'' then ''file_manager'' else namespace @ ''file_manager'')
        (replace_prev_output example_repr (dict_get ?d1 ''payload'') PNone) start
      = (Inr (PList [PStr ''a.txt'', PStr ''b.txt'']),
         \<lparr>world = [],
          invoked = [(''aura_core.apprentices.file_manager'', PDict [(''action'', PStr ''list'')])]\<rparr>)"
    by code_simp
  have i2: "invoke example_modules
        (if prefix namespace ''summarizer'' then ''summarizer'' else namespace @ ''summarizer'')
        (replace_prev_output example_repr (dict_get ?d2 ''payload'') PNone) start
      = (Inr (PStr ''Error: model unavailable''),
         \<lparr>world = [],
          invoked = [(''aura_core.apprentices.summarizer'', PDict [(''text'', PStr ''abc'')])]\<rparr>)"
    by code_simp
  have e: "prefix ''error:'' (py_lower (py_strip ''Error: model unavailable''))"
    by code_simp
  from result_classification [OF a1 b1 c1 i1] result_classification [OF a2 b2 c2 i2] e
  show ?thesis by simp
qed

text \<open>
  Claim C4 (exception containment), as amended. Take a step that names a tool and has a
  payload, and let the import of the module, the lookup of \<^verbatim>\<open>run\<close> or the call of \<^verbatim>\<open>run\<close>
  raise an exception. When its class derives from \<^verbatim>\<open>Exception\<close>, \<^verbatim>\<open>execute_step\<close> returns
  the error message of the matching handler with the flag \<^verbatim>\<open>False\<close>, and the loop breaks at
  that step with the message. When its class derives from \<^verbatim>\<open>BaseException\<close> only, no
  handler catches it: the same exception leaves \<^verbatim>\<open>execute_step\<close> and the loop.
\<close>

theorem exception_contained:
  assumes "dict_get d ''apprentice'' = PStr name" and "name \<noteq> []"
    and "dict_get d ''payload'' \<noteq> PNone"
    and "invoke imp (if prefix namespace name then name else namespace @ name)
           (replace_prev_output repr (dict_get d ''payload'') prev) st = (Inl (Exn cls msg), st')"
  shows "(cls \<noteq> BaseExceptionOnly \<longrightarrow>
           (\<exists>m. error_msg (if prefix namespace name then name else namespace @ name)
                   (Exn cls msg) = Some m \<and>
                execute_step repr imp (PDict d) prev st = (Inr (PStr m, False), st') \<and>
                run_steps repr imp i (PDict d # rest) prev st
                  = (Inr (Break (i + 1) (PStr m)), st'))) \<and>
         (cls = BaseExceptionOnly \<longrightarrow>
            execute_step repr imp (PDict d) prev st = (Inl (Exn cls msg), st') \<and>
            run_steps repr imp i (PDict d # rest) prev st = (Inl (Exn cls msg), st'))"
proof (intro conjI impI)
  assume c: "cls \<noteq> BaseExceptionOnly"
  obtain m where t: "error_msg (if prefix namespace name then name else namespace @ name)
                          (Exn cls msg) = Some m"
  proof -
    have "error_msg (if prefix namespace name then name else namespace @ name) (Exn cls msg)
            \<noteq> None"
      using c by (simp add: error_msg_def)
    then show ?thesis using that by blast
  qed
  have "execute_step repr imp (PDict d) prev st = (Inr (PStr m, False), st')"
    using assms(4) t by (simp add: execute_step_reaches_invoke [OF assms(1-3)])
  then show "\<exists>m. error_msg (if prefix namespace name then name else namespace @ name)
                   (Exn cls msg) = Some m \<and>
                execute_step repr imp (PDict d) prev st = (Inr (PStr m, False), st') \<and>
                run_steps repr imp i (PDict d # rest) prev st
                  = (Inr (Break (i + 1) (PStr m)), st')"
    using t by simp
next
  assume c: "cls = BaseExceptionOnly"
  have n: "error_msg (if prefix namespace name then name else namespace @ name) (Exn cls msg)
             = None"
    using c by (simp add: error_msg_def)
  show e: "execute_step repr imp (PDict d) prev st = (Inl (Exn cls msg), st')"
    using assms(4) n by (simp add: execute_step_reaches_invoke [OF assms(1-3)])
  show "run_steps repr imp i (PDict d # rest) prev st = (Inl (Exn cls msg), st')"
    using e by simp
qed

text \<open>
  The document reader raises an ordinary exception with the text \<open>boom\<close>: the step returns
  the message of the last handler, and a plan that starts with it fails at step 1 without
  calling the writer that follows. The process manager is interrupted from the keyboard:
  \<^verbatim>\<open>KeyboardInterrupt\<close> leaves the loop, and the writer that follows is not called either.
\<close>

theorem exception_contained_witness:
  "execute_step example_repr example_modules
      (PDict [(''apprentice'', PStr ''doc_reader''), (''payload'', PDict [(''filename'', PStr ''a.docx'')])])
      PNone start
     = (Inr (PStr ''Critical error executing aura_core.apprentices.doc_reader: boom'', False),
        \<lparr>world = [],
         invoked = [(''aura_core.apprentices.doc_reader'', PDict [(''filename'', PStr ''a.docx'')])]\<rparr>) \<and>
   run_steps example_repr example_modules 0
      [PDict [(''apprentice'', PStr ''doc_reader''), (''payload'', PDict [(''filename'', PStr ''a.docx'')])],
       step_of ''file_writer'' [(''filename'', PStr ''out.txt''), (''content'', PStr ''$PREV_OUTPUT'')]]
      PNone start
     = (Inr (Break 1 (PStr ''Critical error executing aura_core.apprentices.doc_reader: boom'')),
        \<lparr>world = [],
         invoked = [(''aura_core.apprentices.doc_reader'', PDict [(''filename'', PStr ''a.docx'')])]\<rparr>) \<and>
   run_steps example_repr example_modules 0
      [PDict [(''apprentice'', PStr ''process_manager''), (''payload'', PDict [(''action'', PStr ''list'')])],
       step_of ''file_writer'' [(''filename'', PStr ''out.txt''), (''content'', PStr ''$PREV_OUTPUT'')]]
      PNone start
     = (Inl (Exn BaseExceptionOnly ''KeyboardInterrupt''),
        \<lparr>world = [],
         invoked = [(''aura_core.apprentices.process_manager'', PDict [(''action'', PStr ''list'')])]\<rparr>)"
proof -
  let ?d = "[(''apprentice'', PStr ''doc_reader''), (''payload'', PDict [(''filename'', PStr ''a.docx'')])]"
  let ?e = "[(''apprentice'', PStr ''process_manager''), (''payload'', PDict [(''action'', PStr ''list'')])]"
  let ?rest = "[step_of ''file_writer'' [(''filename'', PStr ''out.txt''), (''content'', PStr ''$PREV_OUTPUT'')]]"
  have a: "dict_get ?d ''apprentice'' = PStr ''doc_reader''"
    and a': "dict_get ?e ''apprentice'' = PStr ''process_manager''"
    by (simp_all add: dict_get_def)
  have b: "''doc_reader'' \<noteq> []" and b': "''process_manager'' \<noteq> []"
    by simp_all
  have c: "dict_get ?d ''payload'' \<noteq> PNone" and c': "dict_get ?e ''payload'' \<noteq> PNone"
    by (simp_all add: dict_get_def)
  have i: "invoke example_modules
        (if prefix namespace ''doc_reader'' then ''doc_reader'' else namespace @ ''doc_reader'')
        (replace_prev_output example_repr (dict_get ?d ''payload'') PNone) start
      = (Inl (Exn OtherException ''boom''),
         \<lparr>world = [],
          invoked = [(''aura_core.apprentices.doc_reader'', PDict [(''filename'', PStr ''a.docx'')])]\<rparr>)"
    by code_simp
  have i': "invoke example_modules
        (if prefix namespace ''process_manager'' then ''process_manager''
         else namespace @ ''process_manager'')
        (replace_prev_output example_repr (dict_get ?e ''payload'') PNone) start
      = (Inl (Exn BaseExceptionOnly ''KeyboardInterrupt''),
         \<lparr>world = [],
          invoked = [(''aura_core.apprentices.process_manager'', PDict [(''action'', PStr ''list'')])]\<rparr>)"
    by code_simp
  have m: "error_msg (if prefix namespace ''doc_reader'' then ''doc_reader''
                      else namespace @ ''doc_reader'') (Exn OtherException ''boom'')
             = Some ''Critical error executing aura_core.apprentices.doc_reader: boom''"
    by code_simp
  from exception_contained [OF a b c i, of 0 ?rest] exception_contained [OF a' b' c' i', of 0 ?rest] m
  show ?thesis by auto
qed

text \<open>
  Against claim C4 as it is written: the process manager is interrupted from the keyboard
  while it runs. \<^verbatim>\<open>KeyboardInterrupt\<close> does not derive from \<^verbatim>\<open>Exception\<close>, no handler of
  \<^verbatim>\<open>execute_step\<close> catches it, and it leaves \<^verbatim>\<open>execute_step\<close> and the loop.
\<close>

theorem exception_escapes:
  "execute_step example_repr example_modules
      (step_of ''process_manager'' [(''action'', PStr ''list'')]) PNone start
     = (Inl (Exn BaseExceptionOnly ''KeyboardInterrupt''),
        \<lparr>world = [],
         invoked = [(''aura_core.apprentices.process_manager'', PDict [(''action'', PStr ''list'')])]\<rparr>) \<and>
   run_steps example_repr example_modules 0
      [step_of ''process_manager'' [(''action'', PStr ''list'')]] PNone start
     = (Inl (Exn BaseExceptionOnly ''KeyboardInterrupt''),
        \<lparr>world = [],
         invoked = [(''aura_core.apprentices.process_manager'', PDict [(''action'', PStr ''list'')])]\<rparr>)"
  by code_simp

section \<open>The sentinel inside a longer string: claim C10\<close>

lemma at_path_PNone: "at_path PNone p \<noteq> Some (PStr s)"
  by (cases p) simp_all

text \<open>
  Claim C10 (exact match only). Wherever the payload holds a string other than
  \<open>$PREV_OUTPUT\<close>, at any depth, the walk leaves that string as it is: a string that holds
  the sentinel only as a part of it, such as \<open>result: $PREV_OUTPUT\<close>, is kept with the
  sentinel in it. When the step names a tool whose module has \<^verbatim>\<open>run\<close>, the payload that \<^verbatim>\<open>run\<close>
  is called with holds that string at the same place.
\<close>

theorem exact_match_only:
  assumes "at_path payload p = Some (PStr s)" and "s \<noteq> ''$PREV_OUTPUT''"
  shows "at_path (replace_prev_output repr payload out) p = Some (PStr s) \<and>
         (dict_get d ''apprentice'' = PStr name \<and> name \<noteq> [] \<and> dict_get d ''payload'' = payload \<and>
          imp (if prefix namespace name then name else namespace @ name) = Inr (Module (Some run))
          \<longrightarrow> (\<exists>received.
                 at_path received p = Some (PStr s) \<and>
                 snd (execute_step repr imp (PDict d) out st)
                   = st\<lparr>world := snd (run received (world st)),
                        invoked := invoked st
                          @ [(if prefix namespace name then name else namespace @ name, received)]\<rparr>))"
proof (intro conjI impI)
  show kept: "at_path (replace_prev_output repr payload out) p = Some (PStr s)"
    using assms by (simp add: at_path_replace_prev_output PREV_OUTPUT_def)
  assume a: "dict_get d ''apprentice'' = PStr name \<and> name \<noteq> [] \<and> dict_get d ''payload'' = payload \<and>
          imp (if prefix namespace name then name else namespace @ name) = Inr (Module (Some run))"
  have n: "dict_get d ''payload'' \<noteq> PNone"
    using a assms(1) at_path_PNone by auto
  have "snd (execute_step repr imp (PDict d) out st)
          = st\<lparr>world := snd (run (replace_prev_output repr payload out) (world st)),
               invoked := invoked st
                 @ [(if prefix namespace name then name else namespace @ name,
                     replace_prev_output repr payload out)]\<rparr>"
    using a by (simp add: execute_step_reaches_invoke [OF _ _ n] invoke_def
        split: prod.splits sum.splits option.splits)
  with kept show "\<exists>received.
                 at_path received p = Some (PStr s) \<and>
                 snd (execute_step repr imp (PDict d) out st)
                   = st\<lparr>world := snd (run received (world st)),
                        invoked := invoked st
                          @ [(if prefix namespace name then name else namespace @ name, received)]\<rparr>"
    by blast
qed

text \<open>
  A payload for the writer whose content is a list of \<open>result: $PREV_OUTPUT\<close> and
  \<open>$PREV_OUTPUT\<close>, after the output \<open>X\<close>: the writer is called with the first string as it
  was and with \<open>X\<close> for the second.
\<close>

theorem exact_match_only_witness:
  "at_path (PDict [(''filename'', PStr ''out.txt''),
                   (''content'', PList [PStr ''result: $PREV_OUTPUT'', PStr ''$PREV_OUTPUT''])])
      [Key ''content'', Index 0] = Some (PStr ''result: $PREV_OUTPUT'') \<and>
   ''result: $PREV_OUTPUT'' \<noteq> ''$PREV_OUTPUT'' \<and>
   at_path (replace_prev_output example_repr
      (PDict [(''filename'', PStr ''out.txt''),
              (''content'', PList [PStr ''result: $PREV_OUTPUT'', PStr ''$PREV_OUTPUT''])])
      (PStr ''X'')) [Key ''content'', Index 0] = Some (PStr ''result: $PREV_OUTPUT'') \<and>
   (\<exists>received.
      at_path received [Key ''content'', Index 0] = Some (PStr ''result: $PREV_OUTPUT'') \<and>
      invoked (snd (execute_step example_repr example_modules
         (step_of ''file_writer''
            [(''filename'', PStr ''out.txt''),
             (''content'', PList [PStr ''result: $PREV_OUTPUT'', PStr ''$PREV_OUTPUT''])])
         (PStr ''X'') start))
        = [(''aura_core.apprentices.file_writer'', received)]) \<and>
   execute_step example_repr example_modules
      (step_of ''file_writer''
         [(''filename'', PStr ''out.txt''),
          (''content'', PList [PStr ''result: $PREV_OUTPUT'', PStr ''$PREV_OUTPUT''])])
      (PStr ''X'') start
     = (Inr (PStr ''Success: saved'', True),
        \<lparr>world = [PList [PStr ''result: $PREV_OUTPUT'', PStr ''X'']],
         invoked = [(''aura_core.apprentices.file_writer'',
                     PDict [(''filename'', PStr ''out.txt''),
                            (''content'', PList [PStr ''result: $PREV_OUTPUT'', PStr ''X''])])]\<rparr>)"
proof -
  let ?payload = "PDict [(''filename'', PStr ''out.txt''),
                   (''content'', PList [PStr ''result: $PREV_OUTPUT'', PStr ''$PREV_OUTPUT''])]"
  let ?d = "[(''apprentice'', PStr ''file_writer''), (''payload'', ?payload)]"
  let ?run = "\<lambda>payload w. (Inr (PStr ''Success: saved'') :: exn + pyval,
                 w @ [case payload of PDict d \<Rightarrow> dict_get d ''content'' | _ \<Rightarrow> PNone])"
  have h1: "at_path ?payload [Key ''content'', Index 0] = Some (PStr ''result: $PREV_OUTPUT'')"
    by simp
  have h2: "''result: $PREV_OUTPUT'' \<noteq> ''$PREV_OUTPUT''"
    by simp
  have h3: "dict_get ?d ''apprentice'' = PStr ''file_writer'' \<and> ''file_writer'' \<noteq> [] \<and>
            dict_get ?d ''payload'' = ?payload \<and>
            example_modules (if prefix namespace ''file_writer'' then ''file_writer''
                             else namespace @ ''file_writer'') = Inr (Module (Some ?run))"
    by (simp add: dict_get_def example_modules_def namespace_def)
  have h4: "execute_step example_repr example_modules
      (step_of ''file_writer''
         [(''filename'', PStr ''out.txt''),
          (''content'', PList [PStr ''result: $PREV_OUTPUT'', PStr ''$PREV_OUTPUT''])])
      (PStr ''X'') start
     = (Inr (PStr ''Success: saved'', True),
        \<lparr>world = [PList [PStr ''result: $PREV_OUTPUT'', PStr ''X'']],
         invoked = [(''aura_core.apprentices.file_writer'',
                     PDict [(''filename'', PStr ''out.txt''),
                            (''content'', PList [PStr ''result: $PREV_OUTPUT'', PStr ''X''])])]\<rparr>)"
    by code_simp
  note t = exact_match_only [OF h1 h2, of example_repr "PStr ''X''" ?d "''file_writer''"
      example_modules ?run start]
  from t have c1: "at_path (replace_prev_output example_repr ?payload (PStr ''X''))
                     [Key ''content'', Index 0] = Some (PStr ''result: $PREV_OUTPUT'')"
    by (rule conjunct1)
  from t [THEN conjunct2, THEN mp, OF h3] obtain received
    where r: "at_path received [Key ''content'', Index 0] = Some (PStr ''result: $PREV_OUTPUT'')"
      and e: "snd (execute_step example_repr example_modules (PDict ?d) (PStr ''X'') start)
                = start\<lparr>world := snd (?run received (world start)),
                    invoked := invoked start
                      @ [(if prefix namespace ''file_writer'' then ''file_writer''
                          else namespace @ ''file_writer'', received)]\<rparr>"
    by blast
  from e have "invoked (snd (execute_step example_repr example_modules
         (step_of ''file_writer''
            [(''filename'', PStr ''out.txt''),
             (''content'', PList [PStr ''result: $PREV_OUTPUT'', PStr ''$PREV_OUTPUT''])])
         (PStr ''X'') start))
        = [(''aura_core.apprentices.file_writer'', received)]"
    by (simp add: step_of_def start_def namespace_def)
  with r have c2: "\<exists>received.
      at_path received [Key ''content'', Index 0] = Some (PStr ''result: $PREV_OUTPUT'') \<and>
      invoked (snd (execute_step example_repr example_modules
         (step_of ''file_writer''
            [(''filename'', PStr ''out.txt''),
             (''content'', PList [PStr ''result: $PREV_OUTPUT'', PStr ''$PREV_OUTPUT''])])
         (PStr ''X'') start))
        = [(''aura_core.apprentices.file_writer'', received)]"
    by (intro exI conjI)
  from h1 h2 c1 c2 h4 show ?thesis
    by (intro conjI)
qed

section \<open>Planning: claims C8 and C9\<close>

lemma check_items_iff:
  "check_items items = None \<longleftrightarrow>
   (\<forall>step \<in> set items. \<exists>d. step = PDict d \<and> dict_has d ''apprentice'' \<and> dict_has d ''payload'')"
  by (induction items) (auto split: pyval.splits if_splits)

lemma validate_iff:
  "validate parsed = Inr plan \<longleftrightarrow>
     parsed = PList plan \<and>
     (\<forall>step \<in> set plan. \<exists>d. step = PDict d \<and> dict_has d ''apprentice'' \<and> dict_has d ''payload'')"
proof (cases parsed)
  case (PList items)
  show ?thesis
  proof (cases "check_items items")
    case None
    with PList check_items_iff [of items] show ?thesis
      by (auto simp: validate_def)
  next
    case (Some m)
    with PList check_items_iff [of items] show ?thesis
      by (auto simp: validate_def)
  qed
qed (simp_all add: validate_def)

text \<open>
  Claim C8 (step payload), as amended. The structural checks accept a parsed value exactly
  when it is a list whose every item is a dictionary with the key \<open>apprentice\<close> and the key
  \<open>payload\<close>: they fail on a step without the key \<open>payload\<close> and look at no value, so a step
  with the payload \<^verbatim>\<open>null\<close> passes as one with an empty mapping does. For a step whose payload
  is \<^verbatim>\<open>None\<close>, be the key missing or its value \<^verbatim>\<open>null\<close>, what \<^verbatim>\<open>execute_step\<close> does is the same
  for every registry of modules and leaves the state as it was: the registry has no part in
  it and no tool is called. When the tool reference of such a step is a string or a false value,
  \<^verbatim>\<open>execute_step\<close> returns \<^verbatim>\<open>(None, False)\<close> and the loop breaks at that step. When it is a
  true value that is not a string, the test of the prefix, which comes before the guard,
  raises \<^verbatim>\<open>AttributeError\<close>, and the exception leaves \<^verbatim>\<open>execute_step\<close> and the loop.
\<close>

theorem payload_guard:
  "(validate parsed = Inr plan \<longleftrightarrow>
      parsed = PList plan \<and>
      (\<forall>step \<in> set plan. \<exists>d. step = PDict d \<and> dict_has d ''apprentice'' \<and> dict_has d ''payload'')) \<and>
   (dict_get d ''payload'' = PNone \<longrightarrow>
      (\<forall>imp'. execute_step repr imp' (PDict d) prev st = execute_step repr imp (PDict d) prev st) \<and>
      snd (execute_step repr imp (PDict d) prev st) = st \<and>
      ((\<exists>name. dict_get d ''apprentice'' = PStr name) \<or> \<not> py_truthy (dict_get d ''apprentice'') \<longrightarrow>
         execute_step repr imp (PDict d) prev st = (Inr (PNone, False), st) \<and>
         run_steps repr imp i (PDict d # rest) prev st = (Inr (Break (i + 1) PNone), st)) \<and>
      ((\<forall>name. dict_get d ''apprentice'' \<noteq> PStr name) \<and> py_truthy (dict_get d ''apprentice'') \<longrightarrow>
         (\<exists>msg. execute_step repr imp (PDict d) prev st = (Inl (Exn AttributeError msg), st) \<and>
                run_steps repr imp i (PDict d # rest) prev st = (Inl (Exn AttributeError msg), st))))"
proof -
  have b: "execute_step repr imp' (PDict d) prev st = execute_step repr imp (PDict d) prev st"
    if "dict_get d ''payload'' = PNone" for imp'
    using that by (auto simp: execute_step_def Let_def split: pyval.splits)
  have c: "snd (execute_step repr imp (PDict d) prev st) = st"
    if "dict_get d ''payload'' = PNone"
    using that by (auto simp: execute_step_def Let_def split: pyval.splits)
  have e: "execute_step repr imp (PDict d) prev st = (Inr (PNone, False), st)"
    if "dict_get d ''payload'' = PNone"
      and "(\<exists>name. dict_get d ''apprentice'' = PStr name) \<or> \<not> py_truthy (dict_get d ''apprentice'')"
    using that by (auto simp: execute_step_def Let_def split: pyval.splits)
  from e have r: "run_steps repr imp i (PDict d # rest) prev st = (Inr (Break (i + 1) PNone), st)"
    if "dict_get d ''payload'' = PNone"
      and "(\<exists>name. dict_get d ''apprentice'' = PStr name) \<or> \<not> py_truthy (dict_get d ''apprentice'')"
    using that by simp
  have x: "\<exists>msg. execute_step repr imp (PDict d) prev st = (Inl (Exn AttributeError msg), st) \<and>
                run_steps repr imp i (PDict d # rest) prev st = (Inl (Exn AttributeError msg), st)"
    if "\<forall>name. dict_get d ''apprentice'' \<noteq> PStr name" and "py_truthy (dict_get d ''apprentice'')"
  proof -
    have "execute_step repr imp (PDict d) prev st
            = (Inl (Exn AttributeError (''object has no attribute '' @ sq @ ''startswith'' @ sq)), st)"
      using that by (auto simp: execute_step_def Let_def split: pyval.splits)
    then show ?thesis by simp
  qed
  show ?thesis
    using validate_iff [of parsed plan] b c e r x by blast
qed

text \<open>
  A step with an empty mapping as its payload passes the checks. A step with the payload
  \<^verbatim>\<open>null\<close> is turned away by \<^verbatim>\<open>execute_step\<close> with the pair \<^verbatim>\<open>(None, False)\<close>, and a plan that
  starts with it fails at step 1 with nothing called.
\<close>

theorem payload_guard_witness:
  "validate (PList [step_of ''file_writer'' []]) = Inr [step_of ''file_writer'' []] \<and>
   dict_get [(''apprentice'', PStr ''file_writer''), (''payload'', PNone)] ''payload'' = PNone \<and>
   dict_get [(''apprentice'', PStr ''file_writer''), (''payload'', PNone)] ''apprentice''
     = PStr ''file_writer'' \<and>
   execute_step example_repr example_modules
       (PDict [(''apprentice'', PStr ''file_writer''), (''payload'', PNone)]) PNone start
     = (Inr (PNone, False), start) \<and>
   run_steps example_repr example_modules 0
       [PDict [(''apprentice'', PStr ''file_writer''), (''payload'', PNone)],
        step_of ''file_manager'' [(''action'', PStr ''list'')]] PNone start
     = (Inr (Break 1 PNone), start)"
proof -
  have v: "PList [step_of ''file_writer'' []] = PList [step_of ''file_writer'' []] \<and>
    (\<forall>step \<in> set [step_of ''file_writer'' []].
       \<exists>d. step = PDict d \<and> dict_has d ''apprentice'' \<and> dict_has d ''payload'')"
    by (simp add: step_of_def dict_has_def)
  have g: "dict_get [(''apprentice'', PStr ''file_writer''), (''payload'', PNone)] ''payload'' = PNone"
    by (simp add: dict_get_def)
  have n: "dict_get [(''apprentice'', PStr ''file_writer''), (''payload'', PNone)] ''apprentice''
     = PStr ''file_writer''"
    by (simp add: dict_get_def)
  from payload_guard [of "PList [step_of ''file_writer'' []]" "[step_of ''file_writer'' []]"
      "[(''apprentice'', PStr ''file_writer''), (''payload'', PNone)]"
      example_repr PNone start example_modules 0
      "[step_of ''file_manager'' [(''action'', PStr ''list'')]]"] v g n
  show ?thesis
    by simp
qed

text \<open>
  Against claim C8 as it is written: a reply whose only step has the payload \<^verbatim>\<open>null\<close> passes
  the structural checks and is returned as a plan.
\<close>

theorem null_payload_accepted:
  "call_llm (\<lambda>request. Inr ''[{\"apprentice\": \"file_writer\", \"payload\": null}]'') json_loads
       ''save it''
     = Inr (Plan [PDict [(''apprentice'', PStr ''file_writer''), (''payload'', PNone)]])"
  by code_simp

text \<open>
  Claim C9 (plan or clean failure), as amended. For every reply of the model, \<^verbatim>\<open>call_llm\<close>
  either returns the list of steps that the repaired reply parses to and that passed the
  structural checks, which may be empty, or it ends in the handler that prints the reason
  together with the raw reply and the repaired text and returns \<^verbatim>\<open>None\<close>: the repaired text
  is not JSON, or it parses to a value that fails the checks. \<^verbatim>\<open>handle_request\<close> runs the
  steps of a returned list that is not empty. When the list is empty or planning failed, it
  ends with no valid plan and the state is untouched: no step has run.
\<close>

theorem plan_or_failure:
  assumes "chat req = Inr content"
  shows "(\<exists>plan. call_llm chat loads req = Inr (Plan plan) \<and>
            loads (repair (py_strip content)) = Some (PList plan) \<and>
            validate (PList plan) = Inr plan \<and>
            handle_request chat loads repr imp req st =
              (if plan = [] then (Inr NoValidPlan, st)
               else report (run_steps repr imp 0 plan PNone st)))
       \<or> (\<exists>why. call_llm chat loads req
                  = Inr (Rejected why (py_strip content) (repair (py_strip content))) \<and>
            (why = NotJSON \<and> loads (repair (py_strip content)) = None
             \<or> (\<exists>parsed msg. why = Invalid msg \<and>
                   loads (repair (py_strip content)) = Some parsed \<and>
                   validate parsed = Inl msg)) \<and>
            handle_request chat loads repr imp req st = (Inr NoValidPlan, st))"
proof (cases "loads (repair (py_strip content))")
  case None
  with assms show ?thesis
    by (simp add: call_llm_def handle_request_def returned_def Let_def)
next
  case (Some parsed)
  show ?thesis
  proof (cases "validate parsed")
    case (Inl msg)
    with Some assms show ?thesis
      by (simp add: call_llm_def handle_request_def returned_def Let_def)
  next
    case (Inr plan)
    then have "parsed = PList plan" by (simp add: validate_iff)
    with Inr Some assms show ?thesis
      by (simp add: call_llm_def handle_request_def returned_def Let_def)
  qed
qed

lemma scenario_plan:
  "call_llm (\<lambda>request. Inr scenario_reply) json_loads ''write hi to out.txt''
     = Inr (Plan [step_of ''file_writer'' [(''filename'', PStr ''out.txt''), (''content'', PStr ''hi'')]])"
  by code_simp

lemma scenario_run:
  "run_steps example_repr example_modules 0
      [step_of ''file_writer'' [(''filename'', PStr ''out.txt''), (''content'', PStr ''hi'')]] PNone start
     = (Inr (Exhausted (PStr ''Success: saved'')),
        \<lparr>world = [PStr ''hi''],
         invoked = [(''aura_core.apprentices.file_writer'',
                     PDict [(''filename'', PStr ''out.txt''), (''content'', PStr ''hi'')])]\<rparr>)"
  by code_simp

text \<open>
  The end-to-end scenario: the fenced reply in single quotes is repaired into a plan of one
  step, the writer is called and the request completes.
\<close>

theorem plan_or_failure_witness:
  "(\<lambda>request. Inr scenario_reply) ''write hi to out.txt'' = (Inr scenario_reply :: exn + string) \<and>
   call_llm (\<lambda>request. Inr scenario_reply) json_loads ''write hi to out.txt''
     = Inr (Plan [step_of ''file_writer'' [(''filename'', PStr ''out.txt''), (''content'', PStr ''hi'')]]) \<and>
   handle_request (\<lambda>request. Inr scenario_reply) json_loads example_repr example_modules
       ''write hi to out.txt'' start
     = (Inr Completed,
        \<lparr>world = [PStr ''hi''],
         invoked = [(''aura_core.apprentices.file_writer'',
                     PDict [(''filename'', PStr ''out.txt''), (''content'', PStr ''hi'')])]\<rparr>)"
proof -
  have c: "(\<lambda>request. Inr scenario_reply) ''write hi to out.txt'' = (Inr scenario_reply :: exn + string)"
    by simp
  from plan_or_failure [of "\<lambda>request. Inr scenario_reply" "''write hi to out.txt''" scenario_reply
      json_loads example_repr example_modules start]
    c scenario_plan scenario_run
  show ?thesis
    by (auto simp: report_def)
qed

text \<open>
  Against claim C9 as it is written: for the reply \<open>[]\<close> the plan compiler returns the empty
  list. That is neither a plan with a step in it nor the failure that keeps the raw and the
  repaired text.
\<close>

theorem empty_plan_returned:
  "call_llm (\<lambda>request. Inr ''[]'') json_loads ''tidy up'' = Inr (Plan [])"
  by code_simp

section \<open>Replacing one text by another\<close>

text \<open>
  \<^verbatim>\<open>replace\<close> leaves a text without the pattern as it is, and works on the two sides of a
  character that the pattern holds at its head only.
\<close>

lemma py_replace_unchanged:
  "old \<noteq> [] \<Longrightarrow> \<not> sublist old s \<Longrightarrow> py_replace s old new = s"
  by (induction s) (auto simp: sublist_Cons_right)

lemma prefix_append_not_prefix:
  assumes "prefix p (u @ v)" and "\<not> prefix p u" and "u \<noteq> []" and "v \<noteq> []"
  shows "hd v \<in> set (tl p)"
proof -
  from assms(1) obtain w where w: "u @ v = p @ w" by (auto simp: prefix_def)
  from assms(2) have "\<not> length p \<le> length u"
    using w by (metis append_eq_append_conv_if prefix_def append_take_drop_id prefixI)
  then have l: "length u < length p" by simp
  from w l have "p ! length u = (u @ v) ! length u"
    by (metis nth_append)
  also have "\<dots> = hd v" using assms(4) by (simp add: nth_append hd_conv_nth)
  finally have "hd v = p ! length u" by simp
  moreover have "0 < length u" using assms(3) by simp
  ultimately show ?thesis
    using l by (metis Suc_pred in_set_conv_nth length_tl less_diff_conv nth_tl
        Suc_less_eq add.commute plus_1_eq_Suc)
qed

lemma py_replace_append:
  assumes "old \<noteq> []" and "v \<noteq> []" and "hd v \<notin> set (tl old)"
  shows "py_replace (u @ v) old new = py_replace u old new @ py_replace v old new"
  using assms
proof (induction u old new rule: py_replace.induct)
  case (1 old new)
  then show ?case by simp
next
  case (2 c s old new)
  show ?case
  proof (cases "prefix old (c # s)")
    case True
    then have p: "prefix old (c # s @ v)"
      by (metis append_Cons prefix_prefix)
    from True have "length old \<le> length (c # s)" by (rule prefix_length_le)
    then have "drop (length old) ((c # s) @ v) = drop (length old) (c # s) @ v"
      by (simp only: drop_append) simp
    then have d: "drop (length old) (c # s @ v) = drop (length old) (c # s) @ v"
      by simp
    from 2 True p d show ?thesis by simp
  next
    case False
    have "\<not> prefix old (c # s @ v)"
      using prefix_append_not_prefix [of old "c # s" v] False "2.prems" by auto
    with 2 False show ?thesis by simp
  qed
qed

lemma py_replace_append_Cons:
  "old \<noteq> [] \<Longrightarrow> c \<notin> set (tl old) \<Longrightarrow>
   py_replace (u @ c # v) old new = py_replace u old new @ py_replace (c # v) old new"
  by (rule py_replace_append) simp_all

lemma fix_literals_rewrites:
  "fix_literals (a @ '': True'' @ b) = fix_literals a @ '': true'' @ fix_literals b"
  "fix_literals (a @ '', True'' @ b) = fix_literals a @ '', true'' @ fix_literals b"
  "fix_literals (a @ '': False'' @ b) = fix_literals a @ '': false'' @ fix_literals b"
  "fix_literals (a @ '', False'' @ b) = fix_literals a @ '', false'' @ fix_literals b"
  "fix_literals (a @ '': None'' @ b) = fix_literals a @ '': null'' @ fix_literals b"
  "fix_literals (a @ '', None'' @ b) = fix_literals a @ '', null'' @ fix_literals b"
  by (simp_all add: fix_literals_def py_replace_append_Cons)

lemma fix_literals_fallback_rewrites:
  "fix_literals_fallback (a @ '': True'' @ b)
     = fix_literals_fallback a @ '': true'' @ fix_literals_fallback b"
  "fix_literals_fallback (a @ '': False'' @ b)
     = fix_literals_fallback a @ '': false'' @ fix_literals_fallback b"
  "fix_literals_fallback (a @ '': None'' @ b)
     = fix_literals_fallback a @ '': null'' @ fix_literals_fallback b"
  by (simp_all add: fix_literals_fallback_def py_replace_append_Cons)

lemma fix_literals_unchanged:
  "\<not> sublist '': True'' s \<Longrightarrow> \<not> sublist '', True'' s \<Longrightarrow> \<not> sublist '': False'' s \<Longrightarrow>
   \<not> sublist '', False'' s \<Longrightarrow> \<not> sublist '': None'' s \<Longrightarrow> \<not> sublist '', None'' s \<Longrightarrow>
   fix_literals s = s"
  by (simp add: fix_literals_def py_replace_unchanged)

lemma fix_literals_fallback_unchanged:
  "\<not> sublist '': True'' s \<Longrightarrow> \<not> sublist '': False'' s \<Longrightarrow> \<not> sublist '': None'' s \<Longrightarrow>
   fix_literals_fallback s = s"
  by (simp add: fix_literals_fallback_def py_replace_unchanged)

text \<open>More on \<^verbatim>\<open>replace\<close>: what a replacement cannot bring about.\<close>

lemma py_replace_same_aux: "new = old \<Longrightarrow> py_replace s old new = s"
proof (induction s old new rule: py_replace.induct)
  case (1 old new)
  then show ?case by simp
next
  case (2 c s old new)
  show ?case
  proof (cases "old \<noteq> [] \<and> prefix old (c # s)")
    case True
    then have "old @ drop (length old) (c # s) = c # s"
      by (auto simp: prefix_def)
    with 2 True show ?thesis by simp
  next
    case False
    with 2 show ?thesis by auto
  qed
qed

lemma py_replace_same: "py_replace s old old = s"
  by (rule py_replace_same_aux) simp

lemma set_py_replace: "old \<noteq> [] \<Longrightarrow> set (py_replace s old new) \<subseteq> set s \<union> set new"
proof (induction s old new rule: py_replace.induct)
  case (1 old new)
  then show ?case by simp
next
  case (2 c s old new)
  have "set (drop (length old) (c # s)) \<subseteq> set (c # s)"
    by (rule set_drop_subset)
  with 2 show ?case by (auto split: if_splits)
qed

lemma prefix_replicate_append:
  "prefix (replicate k c) d \<Longrightarrow> prefix (replicate k c) (replicate n c @ d)"
proof -
  assume "prefix (replicate k c) d"
  then obtain e where "d = replicate k c @ e" by (auto simp: prefix_def)
  then have "replicate n c @ d = replicate k c @ replicate n c @ e"
    by (simp add: replicate_add [symmetric] add.commute flip: append_assoc)
  then show ?thesis by simp
qed

lemma prefix_run_py_replace_aux:
  "old = replicate n c \<Longrightarrow> new = [] \<Longrightarrow> 0 < n \<Longrightarrow>
   prefix (replicate k c) (py_replace u old new) \<Longrightarrow> prefix (replicate k c) u"
proof (induction u old new arbitrary: k rule: py_replace.induct)
  case (1 old new)
  then show ?case by simp
next
  case (2 x s old new)
  have ne: "old \<noteq> []" using 2 by auto
  show ?case
  proof (cases "prefix old (x # s)")
    case True
    then have e: "x # s = replicate n c @ drop (length old) (x # s)"
      using "2.prems" by (auto simp: prefix_def)
    have "prefix (replicate k c) (drop (length old) (x # s))"
      using 2 True ne by simp
    then have "prefix (replicate k c) (replicate n c @ drop (length old) (x # s))"
      by (rule prefix_replicate_append)
    with e show ?thesis by simp
  next
    case False
    show ?thesis
    proof (cases k)
      case 0
      then show ?thesis by simp
    next
      case (Suc k')
      with 2 False ne show ?thesis by auto
    qed
  qed
qed

lemma no_run_after_removal_aux:
  "old = replicate n c \<Longrightarrow> new = [] \<Longrightarrow> 0 < n \<Longrightarrow> \<not> sublist old (py_replace s old new)"
proof (induction s old new rule: py_replace.induct)
  case (1 old new)
  then show ?case by auto
next
  case (2 x s old new)
  have ne: "old \<noteq> []" using 2 by auto
  show ?case
  proof (cases "prefix old (x # s)")
    case True
    with 2 ne show ?thesis by simp
  next
    case False
    have "\<not> prefix old (py_replace (x # s) old new)"
      using prefix_run_py_replace_aux [of old n c new n "x # s"] False "2.prems" by auto
    with 2 False ne show ?thesis by (simp add: sublist_Cons_right)
  qed
qed

lemma no_run_after_removal:
  "0 < n \<Longrightarrow> \<not> sublist (replicate n c) (py_replace s (replicate n c) [])"
  by (rule no_run_after_removal_aux) simp_all

lemma prefix_py_replace:
  "old \<noteq> [] \<Longrightarrow> new \<noteq> [] \<Longrightarrow> hd new \<notin> set q \<Longrightarrow>
   prefix q (py_replace u old new) \<Longrightarrow> prefix q u"
proof (induction u old new arbitrary: q rule: py_replace.induct)
  case (1 old new)
  then show ?case by simp
next
  case (2 x s old new)
  show ?case
  proof (cases q)
    case Nil
    then show ?thesis by simp
  next
    case (Cons y q')
    show ?thesis
    proof (cases "prefix old (x # s)")
      case True
      with 2 Cons have "y = hd new"
        by (cases new) auto
      with 2(6) Cons show ?thesis by simp
    next
      case False
      with 2 Cons show ?thesis by simp
    qed
  qed
qed

lemma char_gone_after_replace:
  "c \<notin> set new \<Longrightarrow> c \<notin> set (py_replace s [c] new)"
  by (induction s) auto

text \<open>
  After a rule whose two sides have the same length and the same first character, one that
  occurs nowhere else in them, the left side is gone.
\<close>

lemma sublist_same_length:
  assumes "sublist xs ys" and "length xs = length ys"
  shows "xs = ys"
proof -
  from assms(1) obtain ps ss where "ys = ps @ xs @ ss" by (auto simp: sublist_def)
  with assms(2) show ?thesis by auto
qed

lemma suffix_starting_with_head:
  assumes "suffix s (c # r')" and "s \<noteq> []" and "hd s = c" and "c \<notin> set r'"
  shows "s = c # r'"
proof -
  from assms(1) obtain u where u: "c # r' = u @ s" by (auto simp: suffix_def)
  show ?thesis
  proof (cases u)
    case Nil
    with u show ?thesis by simp
  next
    case (Cons y u')
    with u have "r' = u' @ s" by simp
    then have "hd s \<in> set r'" using assms(2) by (cases s) auto
    with assms(3,4) show ?thesis by simp
  qed
qed

lemma pattern_gone_after_replace:
  assumes "c \<notin> set p'" and "c \<notin> set r'" and "length r' = length p'" and "r' \<noteq> p'"
  shows "\<not> sublist (c # p') (py_replace s (c # p') (c # r'))"
proof (induction s rule: length_induct)
  case (1 s)
  show ?case
  proof (cases s)
    case Nil
    then show ?thesis by simp
  next
    case (Cons x t)
    show ?thesis
    proof (cases "prefix (c # p') (x # t)")
      case True
      let ?d = "drop (length (c # p')) (x # t)"
      have "length ?d < length s" using Cons by simp
      then have ih: "\<not> sublist (c # p') (py_replace ?d (c # p') (c # r'))"
        using 1 by blast
      have out: "py_replace s (c # p') (c # r') = (c # r') @ py_replace ?d (c # p') (c # r')"
        using True Cons by simp
      have "\<not> sublist (c # p') ((c # r') @ py_replace ?d (c # p') (c # r'))"
      proof
        assume "sublist (c # p') ((c # r') @ py_replace ?d (c # p') (c # r'))"
        then consider "sublist (c # p') (c # r')"
          | "sublist (c # p') (py_replace ?d (c # p') (c # r'))"
          | p1 p2 where "c # p' = p1 @ p2" "suffix p1 (c # r')"
              "prefix p2 (py_replace ?d (c # p') (c # r'))"
          unfolding sublist_append by blast
        then show False
        proof cases
          case 1
          then have "c # p' = c # r'"
            using assms(3) by (intro sublist_same_length) simp_all
          with assms(4) show False by simp
        next
          case 2
          with ih show False by simp
        next
          case 3
          show False
          proof (cases p1)
            case Nil
            with 3 have "prefix (c # p') (py_replace ?d (c # p') (c # r'))" by simp
            then have "sublist (c # p') (py_replace ?d (c # p') (c # r'))"
              by (rule prefix_imp_sublist)
            with ih show False by simp
          next
            case (Cons y p1')
            with 3(1) have "hd p1 = c" by simp
            then have "p1 = c # r'"
              using suffix_starting_with_head [OF 3(2)] Cons assms(2) by simp
            with 3(1) assms(3) have "p2 = [] \<and> p' = r'"
              by (metis append_eq_append_conv append_self_conv length_Cons list.inject)
            with assms(4) show False by simp
          qed
        qed
      qed
      with out show ?thesis by simp
    next
      case False
      have "length t < length s" using Cons by simp
      then have ih: "\<not> sublist (c # p') (py_replace t (c # p') (c # r'))"
        using 1 by blast
      have out: "py_replace s (c # p') (c # r') = x # py_replace t (c # p') (c # r')"
        using False Cons by auto
      have "\<not> prefix (c # p') (x # py_replace t (c # p') (c # r'))"
      proof
        assume a: "prefix (c # p') (x # py_replace t (c # p') (c # r'))"
        then have "x = c" and "prefix p' (py_replace t (c # p') (c # r'))" by auto
        then have "prefix p' t"
          using prefix_py_replace [of "c # p'" "c # r'" p' t] assms(1) by simp
        with \<open>x = c\<close> False show False by simp
      qed
      with ih out show ?thesis by (simp add: sublist_Cons_right)
    qed
  qed
qed

text \<open>
  A text with a character that the right side of a rule does not hold, and that cannot
  overlap the right side's ends, occurs after the rule only where it occurred before.
\<close>

lemma prefix_mark_py_replace:
  assumes "old \<noteq> []" and "new \<noteq> []" and "c \<notin> set new" and "hd new \<notin> set b"
  shows "last new \<notin> set a \<Longrightarrow> prefix (a @ c # b) (py_replace u old new)
           \<Longrightarrow> prefix (a @ c # b) u"
proof (induction u arbitrary: a rule: length_induct)
  case (1 u)
  show ?case
  proof (cases u)
    case Nil
    with 1 assms(1) show ?thesis by simp
  next
    case (Cons x t)
    show ?thesis
    proof (cases "prefix old (x # t)")
      case True
      then have "prefix new (py_replace u old new)"
        using Cons assms(1) by simp
      with 1(3) have "prefix new (a @ c # b) \<or> prefix (a @ c # b) new"
        by (metis prefix_same_cases)
      then have False
      proof
        assume "prefix (a @ c # b) new"
        then have "c \<in> set new" by (auto simp: prefix_def)
        with assms(3) show False by simp
      next
        assume p: "prefix new (a @ c # b)"
        have "prefix new a"
        proof (rule ccontr)
          assume "\<not> prefix new a"
          with p have "prefix (a @ [c]) new"
            by (metis append.assoc append_Cons append_Nil prefix_append prefix_snoc
                prefix_order.dual_order.eq_iff prefix_same_cases same_prefix_prefix)
          then have "c \<in> set new" by (auto simp: prefix_def)
          with assms(3) show False by simp
        qed
        then obtain a' where "a = new @ a'" by (auto simp: prefix_def)
        then have "last new \<in> set a" using assms(2) by simp
        with 1(2) show False by simp
      qed
      then show ?thesis ..
    next
      case False
      then have out: "py_replace u old new = x # py_replace t old new"
        using Cons assms(1) by simp
      show ?thesis
      proof (cases a)
        case Nil
        with 1(3) out have "x = c" and "prefix b (py_replace t old new)" by auto
        then have "prefix b t"
          using prefix_py_replace [OF assms(1,2,4)] by blast
        with \<open>x = c\<close> Nil Cons show ?thesis by simp
      next
        case a: (Cons y a')
        with 1(3) out have "x = y" and "prefix (a' @ c # b) (py_replace t old new)" by auto
        moreover have "last new \<notin> set a'" using 1(2) a by auto
        moreover have "length t < length u" using Cons by simp
        ultimately have "prefix (a' @ c # b) t" using 1(1) by blast
        with \<open>x = y\<close> a Cons show ?thesis by simp
      qed
    qed
  qed
qed

lemma sublist_mark_py_replace:
  assumes "old \<noteq> []" and "new \<noteq> []" and "c \<notin> set new" and "hd new \<notin> set b"
    and "last new \<notin> set a"
  shows "sublist (a @ c # b) (py_replace s old new) \<Longrightarrow> sublist (a @ c # b) s"
proof (induction s rule: length_induct)
  case (1 s)
  show ?case
  proof (cases s)
    case Nil
    with 1 assms(1) show ?thesis by simp
  next
    case (Cons x t)
    show ?thesis
    proof (cases "prefix old (x # t)")
      case True
      let ?d = "drop (length old) (x # t)"
      have out: "py_replace s old new = new @ py_replace ?d old new"
        using True Cons assms(1) by simp
      have dl: "length ?d < length s" using Cons assms(1) by simp
      from 1(2) out have "sublist (a @ c # b) (new @ py_replace ?d old new)"
        by simp
      then have "sublist (a @ c # b) new \<or> sublist (a @ c # b) (py_replace ?d old new)
          \<or> (\<exists>q1 q2. a @ c # b = q1 @ q2 \<and> suffix q1 new
                \<and> prefix q2 (py_replace ?d old new))"
        unfolding sublist_append by blast
      then consider "sublist (a @ c # b) new" | "sublist (a @ c # b) (py_replace ?d old new)"
        | q1 q2 where "a @ c # b = q1 @ q2" "q1 \<noteq> []" "suffix q1 new"
            "prefix q2 (py_replace ?d old new)"
      proof (elim disjE exE conjE, goal_cases)
        case 1
        then show ?case by blast
      next
        case 2
        then show ?case by blast
      next
        case (3 q1 q2)
        show ?case
        proof (cases "q1 = []")
          case True
          with 3 have "sublist (a @ c # b) (py_replace ?d old new)"
            by (simp add: prefix_imp_sublist)
          with 3 show ?thesis by blast
        next
          case False
          with 3 show ?thesis by blast
        qed
      qed
      then show ?thesis
      proof cases
        case 1
        then have "c \<in> set new"
          by (metis in_set_conv_decomp set_mono_sublist subsetD)
        with assms(3) show ?thesis by simp
      next
        case 2
        with 1(1) dl have "sublist (a @ c # b) ?d" by blast
        moreover have "sublist ?d s" using Cons by (metis sublist_drop)
        ultimately show ?thesis by (rule sublist_order.order_trans)
      next
        case 3
        have cq: "c \<notin> set q1"
          using 3(3) assms(3) by (metis set_mono_suffix subsetD)
        have "prefix q1 a"
        proof -
          from 3(1) have "prefix q1 (a @ c # b)" by (metis prefixI)
          then have "prefix q1 a \<or> (\<exists>us. q1 = a @ us \<and> us \<noteq> [] \<and> prefix us (c # b))"
            by (metis prefix_append self_append_conv prefix_order.order_refl)
          with cq show ?thesis by (auto simp: prefix_Cons)
        qed
        then have "last q1 \<in> set a"
          using 3(2) by (metis last_in_set set_mono_prefix subsetD)
        moreover have "last q1 = last new"
          using 3(2,3) by (auto simp: suffix_def)
        ultimately show ?thesis using assms(5) by simp
      qed
    next
      case False
      then have out: "py_replace s old new = x # py_replace t old new"
        using Cons assms(1) by simp
      from 1(2) out have "prefix (a @ c # b) (py_replace s old new)
          \<or> sublist (a @ c # b) (py_replace t old new)"
        by (simp add: sublist_Cons_right)
      then show ?thesis
      proof
        assume "prefix (a @ c # b) (py_replace s old new)"
        then have "prefix (a @ c # b) s"
          using prefix_mark_py_replace [OF assms(1-4) assms(5)] by blast
        then show ?thesis by (rule prefix_imp_sublist)
      next
        assume "sublist (a @ c # b) (py_replace t old new)"
        moreover have "length t < length s" using Cons by simp
        ultimately have "sublist (a @ c # b) t" using 1(1) by blast
        then show ?thesis using Cons by (simp add: sublist_Cons_right)
      qed
    qed
  qed
qed

lemma keep_absent:
  assumes "\<not> sublist (a @ c # b) s" and "old \<noteq> []" and "new \<noteq> []" and "c \<notin> set new"
    and "hd new \<notin> set b" and "last new \<notin> set a"
  shows "\<not> sublist (a @ c # b) (py_replace s old new)"
  using sublist_mark_py_replace [OF assms(2-6)] assms(1) by blast

lemmas keep_colon_True = keep_absent [of "'': ''" "CHR ''T''" "''rue''", simplified]
lemmas keep_comma_True = keep_absent [of "'', ''" "CHR ''T''" "''rue''", simplified]
lemmas keep_colon_False = keep_absent [of "'': ''" "CHR ''F''" "''alse''", simplified]
lemmas keep_comma_False = keep_absent [of "'', ''" "CHR ''F''" "''alse''", simplified]
lemmas keep_colon_None = keep_absent [of "'': ''" "CHR ''N''" "''one''", simplified]
lemmas keep_comma_None = keep_absent [of "'', ''" "CHR ''N''" "''one''", simplified]
lemmas keep_stars = keep_absent [of "''*''" "CHR ''*''" "[]", simplified]
lemmas keep_ticks = keep_absent [of "[CHR 0x60, CHR 0x60]" "CHR 0x60" "[]", simplified]

lemmas gone_colon_True = pattern_gone_after_replace [of "CHR '':''" "'' True''" "'' true''", simplified]
lemmas gone_comma_True = pattern_gone_after_replace [of "CHR '',''" "'' True''" "'' true''", simplified]
lemmas gone_colon_False = pattern_gone_after_replace [of "CHR '':''" "'' False''" "'' false''", simplified]
lemmas gone_comma_False = pattern_gone_after_replace [of "CHR '',''" "'' False''" "'' false''", simplified]
lemmas gone_colon_None = pattern_gone_after_replace [of "CHR '':''" "'' None''" "'' null''", simplified]
lemmas gone_comma_None = pattern_gone_after_replace [of "CHR '',''" "'' None''" "'' null''", simplified]

lemma fix_literals_clean:
  "\<not> sublist '': True'' (fix_literals s)"
  "\<not> sublist '', True'' (fix_literals s)"
  "\<not> sublist '': False'' (fix_literals s)"
  "\<not> sublist '', False'' (fix_literals s)"
  "\<not> sublist '': None'' (fix_literals s)"
  "\<not> sublist '', None'' (fix_literals s)"
  unfolding fix_literals_def
  subgoal by (rule keep_colon_True, rule keep_colon_True, rule keep_colon_True,
      rule keep_colon_True, rule keep_colon_True, rule gone_colon_True) simp_all
  subgoal by (rule keep_comma_True, rule keep_comma_True, rule keep_comma_True,
      rule keep_comma_True, rule gone_comma_True) simp_all
  subgoal by (rule keep_colon_False, rule keep_colon_False, rule keep_colon_False,
      rule gone_colon_False) simp_all
  subgoal by (rule keep_comma_False, rule keep_comma_False, rule gone_comma_False) simp_all
  subgoal by (rule keep_colon_None, rule gone_colon_None) simp_all
  subgoal by (rule gone_comma_None)
  done

lemma fix_literals_fallback_clean:
  "\<not> sublist '': True'' (fix_literals_fallback s)"
  "\<not> sublist '': False'' (fix_literals_fallback s)"
  "\<not> sublist '': None'' (fix_literals_fallback s)"
  unfolding fix_literals_fallback_def
  subgoal by (rule keep_colon_True, rule keep_colon_True, rule gone_colon_True) simp_all
  subgoal by (rule keep_colon_False, rule gone_colon_False) simp_all
  subgoal by (rule gone_colon_None)
  done

text \<open>The bracket search and the slice.\<close>

lemma py_find_here: "c \<notin> set a \<Longrightarrow> py_find (a @ c # b) [c] = int (length a)"
  by (induction a) (auto simp: Let_def)

lemma py_find_absent: "c \<notin> set s \<Longrightarrow> py_find s [c] = - 1"
  by (induction s) (auto simp: Let_def)

lemma py_rfind_absent: "c \<notin> set s \<Longrightarrow> py_rfind s [c] = - 1"
  by (induction s) (auto simp: Let_def)

lemma py_rfind_here: "c \<notin> set b \<Longrightarrow> py_rfind (a @ c # b) [c] = int (length a)"
  by (induction a) (auto simp: Let_def py_rfind_absent)

lemma py_find_split:
  "py_find s [c] \<noteq> - 1 \<Longrightarrow> \<exists>a b. s = a @ c # b \<and> c \<notin> set a"
proof -
  assume "py_find s [c] \<noteq> - 1"
  then have "c \<in> set s" using py_find_absent by blast
  then show ?thesis by (rule split_list_first)
qed

lemma py_rfind_split:
  "py_rfind s [c] \<noteq> - 1 \<Longrightarrow> \<exists>a b. s = a @ c # b \<and> c \<notin> set b"
proof -
  assume "py_rfind s [c] \<noteq> - 1"
  then have "c \<in> set s" using py_rfind_absent by blast
  then show ?thesis by (rule split_list_last)
qed

lemma py_slice_within:
  "py_slice (a @ m @ b) (int (length a)) (int (length a + length m)) = m"
  by (simp add: py_slice_def Let_def)

text \<open>The span between the first opening and the last closing bracket.\<close>

lemma bracket_span:
  assumes "py_find s [c] \<noteq> - 1" and "py_rfind s [d] \<noteq> - 1" and "py_find s [c] < py_rfind s [d]"
  shows "\<exists>t. py_slice s (py_find s [c]) (py_rfind s [d] + 1) = c # t @ [d] \<and> set t \<subseteq> set s"
proof -
  from assms(1) obtain a b where ab: "s = a @ c # b" "c \<notin> set a"
    using py_find_split by blast
  from assms(2) obtain a' b' where ab': "s = a' @ d # b'" "d \<notin> set b'"
    using py_rfind_split by blast
  have f: "py_find s [c] = int (length a)"
    unfolding ab(1) using ab(2) by (rule py_find_here)
  have r: "py_rfind s [d] = int (length a')"
    unfolding ab'(1) using ab'(2) by (rule py_rfind_here)
  from assms(3) f r have l: "length a < length a'" by simp
  from ab(1) ab'(1) have "a @ c # b = a' @ d # b'" by simp
  then obtain us where "a @ us = a' \<and> c # b = us @ d # b' \<or> a = a' @ us \<and> us @ c # b = d # b'"
    by (auto simp: append_eq_append_conv2)
  with l have u: "a @ us = a'" "c # b = us @ d # b'" by auto
  with l have "us \<noteq> []" by auto
  with u(2) obtain t where t: "us = c # t" by (cases us) auto
  with u have s: "s = a @ (c # t @ [d]) @ b'" using ab'(1) by simp
  have "py_slice s (py_find s [c]) (py_rfind s [d] + 1) = c # t @ [d]"
  proof -
    have "py_rfind s [d] + 1 = int (length a + length (c # t @ [d]))"
      using r u(1) t by auto
    then show ?thesis
      unfolding f using py_slice_within [of a "c # t @ [d]" b'] s by simp
  qed
  moreover have "set t \<subseteq> set s" using s by auto
  ultimately show ?thesis by blast
qed

lemma py_strip_between: "py_strip (CHR ''['' # t @ '']'') = CHR ''['' # t @ '']''"
  by (simp add: py_strip_def py_lstrip_def py_rstrip_def py_whitespace_def)

lemma char_kept_out:
  "c \<notin> set s \<Longrightarrow> old \<noteq> [] \<Longrightarrow> c \<notin> set new \<Longrightarrow> c \<notin> set (py_replace s old new)"
  using set_py_replace [of old s new] by auto

lemma absent_char_no_sublist: "c \<in> set p \<Longrightarrow> c \<notin> set s \<Longrightarrow> \<not> sublist p s"
  using set_mono_sublist by fastforce

lemmas two_stars_gone = no_run_after_removal [of "Suc (Suc 0)" "CHR ''*''", simplified]
lemmas three_ticks_gone = no_run_after_removal [of "Suc (Suc (Suc 0))" "CHR 0x60", simplified]

lemma py_replace_snoc:
  assumes "old \<noteq> []" and "d \<notin> set old"
  shows "py_replace (t @ [d]) old new = py_replace t old new @ [d]"
proof -
  have "\<not> prefix old [d]"
    using assms by (cases old) auto
  moreover have "d \<notin> set (tl old)" using assms by (cases old) auto
  then have "py_replace (t @ [d]) old new = py_replace t old new @ py_replace [d] old new"
    using assms(1) by (simp add: py_replace_append_Cons)
  ultimately show ?thesis using assms(1) by simp
qed

lemma cleanup_bracketed_between:
  "cleanup_bracketed (CHR ''['' # t @ '']'')
     = CHR ''['' # fix_quotes (fix_literals (strip_markers t)) @ '']''"
  by (simp add: cleanup_bracketed_def fix_quotes_def fix_literals_def strip_markers_def
      py_replace_snoc py_replace_same py_strip_between)

lemma cleanup_fallback_alt: "cleanup_fallback s = fix_quotes (fix_literals_fallback s)"
  by (simp add: cleanup_fallback_def py_replace_same)

text \<open>What the rules leave behind.\<close>

lemma inner_no_quote: "CHR 0x27 \<notin> set (fix_quotes s)"
  unfolding fix_quotes_def by (rule char_gone_after_replace) simp

lemma inner_no_literal:
  "\<not> sublist '': True'' (fix_quotes (fix_literals s))"
  "\<not> sublist '', True'' (fix_quotes (fix_literals s))"
  "\<not> sublist '': False'' (fix_quotes (fix_literals s))"
  "\<not> sublist '', False'' (fix_quotes (fix_literals s))"
  "\<not> sublist '': None'' (fix_quotes (fix_literals s))"
  "\<not> sublist '', None'' (fix_quotes (fix_literals s))"
  unfolding fix_quotes_def
  subgoal by (rule keep_colon_True, rule fix_literals_clean) simp_all
  subgoal by (rule keep_comma_True, rule fix_literals_clean) simp_all
  subgoal by (rule keep_colon_False, rule fix_literals_clean) simp_all
  subgoal by (rule keep_comma_False, rule fix_literals_clean) simp_all
  subgoal by (rule keep_colon_None, rule fix_literals_clean) simp_all
  subgoal by (rule keep_comma_None, rule fix_literals_clean) simp_all
  done

lemma fallback_no_literal:
  "\<not> sublist '': True'' (fix_quotes (fix_literals_fallback s))"
  "\<not> sublist '': False'' (fix_quotes (fix_literals_fallback s))"
  "\<not> sublist '': None'' (fix_quotes (fix_literals_fallback s))"
  unfolding fix_quotes_def
  subgoal by (rule keep_colon_True, rule fix_literals_fallback_clean) simp_all
  subgoal by (rule keep_colon_False, rule fix_literals_fallback_clean) simp_all
  subgoal by (rule keep_colon_None, rule fix_literals_fallback_clean) simp_all
  done

lemma later_rules_keep_stars:
  "\<not> sublist ''**'' s \<Longrightarrow> \<not> sublist ''**'' (fix_quotes (fix_literals s))"
  unfolding fix_quotes_def fix_literals_def
  by (rule keep_stars, rule keep_stars, rule keep_stars, rule keep_stars, rule keep_stars,
      rule keep_stars, rule keep_stars) simp_all

lemma later_rules_keep_ticks:
  "\<not> sublist [CHR 0x60, CHR 0x60, CHR 0x60] s
   \<Longrightarrow> \<not> sublist [CHR 0x60, CHR 0x60, CHR 0x60] (fix_quotes (fix_literals s))"
  unfolding fix_quotes_def fix_literals_def
  by (rule keep_ticks, rule keep_ticks, rule keep_ticks, rule keep_ticks, rule keep_ticks,
      rule keep_ticks, rule keep_ticks) simp_all

lemma inner_no_stars: "\<not> sublist ''**'' (fix_quotes (fix_literals (strip_markers s)))"
  by (rule later_rules_keep_stars) (simp add: strip_markers_def two_stars_gone)

lemma inner_keeps_char_out:
  assumes "c \<notin> set s" and "c \<notin> set '':, truefalsn\"''"
  shows "c \<notin> set (fix_quotes (fix_literals (strip_markers s)))"
  unfolding fix_quotes_def fix_literals_def strip_markers_def
  by (intro char_kept_out) (use assms in simp_all)

lemma inner_no_ticks:
  assumes "CHR 0x60 \<notin> set s \<or> CHR ''*'' \<notin> set s"
  shows "\<not> sublist [CHR 0x60, CHR 0x60, CHR 0x60] (fix_quotes (fix_literals (strip_markers s)))"
  using assms
proof
  assume "CHR 0x60 \<notin> set s"
  then have "CHR 0x60 \<notin> set (fix_quotes (fix_literals (strip_markers s)))"
    by (rule inner_keeps_char_out) simp
  then show ?thesis
    by (intro absent_char_no_sublist [of "CHR 0x60"]) simp_all
next
  assume a: "CHR ''*'' \<notin> set s"
  let ?w = "py_replace (py_replace s [CHR 0x60, CHR 0x60, CHR 0x60, CHR ''j'', CHR ''s'', CHR ''o'', CHR ''n''] [])
              [CHR 0x60, CHR 0x60, CHR 0x60] []"
  have "CHR ''*'' \<notin> set ?w"
    by (intro char_kept_out) (use a in simp_all)
  then have "\<not> sublist ''**'' ?w"
    by (intro absent_char_no_sublist [of "CHR ''*''"]) simp_all
  then have "strip_markers s = ?w"
    by (simp add: strip_markers_def py_replace_unchanged)
  moreover have "\<not> sublist [CHR 0x60, CHR 0x60, CHR 0x60] ?w"
    by (rule three_ticks_gone)
  ultimately show ?thesis
    by (simp add: later_rules_keep_ticks)
qed

lemma sublist_char: "c \<notin> set s \<Longrightarrow> \<not> sublist [c] s"
  by (rule absent_char_no_sublist [of c]) simp_all

lemma strip_markers_fixed:
  assumes "\<not> sublist [CHR 0x60, CHR 0x60, CHR 0x60] u" and "\<not> sublist ''**'' u"
  shows "strip_markers u = u"
proof -
  have "sublist [CHR 0x60, CHR 0x60, CHR 0x60]
          [CHR 0x60, CHR 0x60, CHR 0x60, CHR ''j'', CHR ''s'', CHR ''o'', CHR ''n'']"
    by (rule prefix_imp_sublist) simp
  with assms(1)
  have "\<not> sublist [CHR 0x60, CHR 0x60, CHR 0x60, CHR ''j'', CHR ''s'', CHR ''o'', CHR ''n''] u"
    using sublist_order.order_trans by blast
  with assms show ?thesis
    by (simp add: strip_markers_def py_replace_unchanged)
qed

lemma inner_fixed:
  assumes "\<not> sublist [CHR 0x60, CHR 0x60, CHR 0x60] (fix_quotes (fix_literals (strip_markers t)))"
  shows "fix_quotes (fix_literals (strip_markers (fix_quotes (fix_literals (strip_markers t)))))
           = fix_quotes (fix_literals (strip_markers t))"
proof -
  let ?u = "fix_quotes (fix_literals (strip_markers t))"
  have 1: "strip_markers ?u = ?u"
    using assms inner_no_stars by (rule strip_markers_fixed)
  have 2: "fix_literals ?u = ?u"
    by (rule fix_literals_unchanged) (rule inner_no_literal)+
  have 3: "fix_quotes ?u = ?u"
    unfolding fix_quotes_def [of ?u]
    by (rule py_replace_unchanged, simp, rule sublist_char, rule inner_no_quote)
  show ?thesis
    by (simp only: 1 2 3)
qed

lemma fallback_fixed: "cleanup_fallback (cleanup_fallback s) = cleanup_fallback s"
proof -
  let ?u = "fix_quotes (fix_literals_fallback s)"
  have 2: "fix_literals_fallback ?u = ?u"
    by (rule fix_literals_fallback_unchanged) (rule fallback_no_literal)+
  have 3: "fix_quotes ?u = ?u"
    unfolding fix_quotes_def [of ?u]
    by (rule py_replace_unchanged, simp, rule sublist_char, rule inner_no_quote)
  show ?thesis
    by (simp only: cleanup_fallback_alt 2 3)
qed

text \<open>Where the rules stand in the repair.\<close>

lemma repair_array:
  "repair (CHR ''['' # t @ '']'')
     = balance_braces (CHR ''['' # fix_quotes (fix_literals (strip_markers t)) @ '']'')"
proof -
  let ?x = "CHR ''['' # t @ '']''"
  have f: "py_find ?x ''['' = 0"
    by simp
  have "py_rfind ((CHR ''['' # t) @ CHR '']'' # []) '']'' = int (length (CHR ''['' # t))"
    by (rule py_rfind_here) simp
  then have r: "py_rfind ?x '']'' = int (length t) + 1"
    by simp
  have "py_slice ([] @ ?x @ []) (int (length ([] :: string)))
          (int (length ([] :: string) + length ?x)) = ?x"
    by (rule py_slice_within)
  then have s: "py_slice ?x 0 (int (length t) + 1 + 1) = ?x"
    by (simp add: add.commute)
  have "repair ?x = balance_braces (cleanup_bracketed ?x)"
    unfolding repair_def Let_def f r s by simp
  then show ?thesis
    by (simp only: cleanup_bracketed_between)
qed

lemma repair_no_bracket:
  "CHR ''['' \<notin> set raw \<Longrightarrow> repair raw = balance_braces (fix_quotes (fix_literals_fallback raw))"
  by (simp add: repair_def Let_def py_find_absent cleanup_fallback_alt)

section \<open>The literal rules: claim C7\<close>

text \<open>
  Claim C7 (literal normalization), as amended. The literal rules are plain replacements of
  six texts: \<open>: True\<close>, \<open>, True\<close>, \<open>: False\<close>, \<open>, False\<close>, \<open>: None\<close> and \<open>, None\<close>, a colon or
  a comma, one space and the word. Every occurrence of one of them is rewritten to its JSON
  form, whatever comes before and after it, and the rules go on at both sides of it; a text
  that holds none of the six is left as it is. The fall-back path has the three rules of the
  colon only, and works the same way. In the repair of a reply that starts with \<open>[\<close> and ends
  with \<open>]\<close> the rules work on the text between the two, after the markers are removed and
  before the quotes are replaced; a reply without \<open>[\<close> goes through the fall-back rules.
\<close>

theorem literal_rules:
  "fix_literals (a @ '': True'' @ b) = fix_literals a @ '': true'' @ fix_literals b \<and>
   fix_literals (a @ '', True'' @ b) = fix_literals a @ '', true'' @ fix_literals b \<and>
   fix_literals (a @ '': False'' @ b) = fix_literals a @ '': false'' @ fix_literals b \<and>
   fix_literals (a @ '', False'' @ b) = fix_literals a @ '', false'' @ fix_literals b \<and>
   fix_literals (a @ '': None'' @ b) = fix_literals a @ '': null'' @ fix_literals b \<and>
   fix_literals (a @ '', None'' @ b) = fix_literals a @ '', null'' @ fix_literals b \<and>
   ((\<forall>p \<in> set ['': True'', '', True'', '': False'', '', False'', '': None'', '', None''].
        \<not> sublist p s) \<longrightarrow> fix_literals s = s) \<and>
   fix_literals_fallback (a @ '': True'' @ b)
     = fix_literals_fallback a @ '': true'' @ fix_literals_fallback b \<and>
   fix_literals_fallback (a @ '': False'' @ b)
     = fix_literals_fallback a @ '': false'' @ fix_literals_fallback b \<and>
   fix_literals_fallback (a @ '': None'' @ b)
     = fix_literals_fallback a @ '': null'' @ fix_literals_fallback b \<and>
   ((\<forall>p \<in> set ['': True'', '': False'', '': None'']. \<not> sublist p s)
      \<longrightarrow> fix_literals_fallback s = s) \<and>
   repair (CHR ''['' # t @ '']'')
     = balance_braces (CHR ''['' # fix_quotes (fix_literals (strip_markers t)) @ '']'') \<and>
   (CHR ''['' \<notin> set raw
      \<longrightarrow> repair raw = balance_braces (fix_quotes (fix_literals_fallback raw)))"
proof -
  have u: "(\<forall>p \<in> set ['': True'', '', True'', '': False'', '', False'', '': None'', '', None''].
          \<not> sublist p s) \<longrightarrow> fix_literals s = s"
    by (simp add: fix_literals_unchanged)
  have v: "(\<forall>p \<in> set ['': True'', '': False'', '': None'']. \<not> sublist p s)
      \<longrightarrow> fix_literals_fallback s = s"
    by (simp add: fix_literals_fallback_unchanged)
  have w: "CHR ''['' \<notin> set raw
      \<longrightarrow> repair raw = balance_braces (fix_quotes (fix_literals_fallback raw))"
    by (simp add: repair_no_bracket)
  show ?thesis
    by (intro conjI u v w fix_literals_rewrites fix_literals_fallback_rewrites repair_array)
qed

text \<open>
  The word after a colon and a space is rewritten; the word right after the colon is in none
  of the six texts and is kept.
\<close>

theorem literal_rules_witness:
  "\<not> sublist '': True'' ''[{\"kept\":True}]'' \<and> \<not> sublist '', True'' ''[{\"kept\":True}]'' \<and>
   \<not> sublist '': False'' ''[{\"kept\":True}]'' \<and> \<not> sublist '', False'' ''[{\"kept\":True}]'' \<and>
   \<not> sublist '': None'' ''[{\"kept\":True}]'' \<and> \<not> sublist '', None'' ''[{\"kept\":True}]'' \<and>
   fix_literals ''[{\"kept\":True}]'' = ''[{\"kept\":True}]'' \<and>
   fix_literals ''[{\"done\": True}]'' = ''[{\"done\": true}]''"
proof -
  have k: "\<forall>p \<in> set ['': True'', '', True'', '': False'', '', False'', '': None'', '', None''].
          \<not> sublist p ''[{\"kept\":True}]''"
    by code_simp
  have a: "fix_literals ''[{\"done\"'' = ''[{\"done\"''" and b: "fix_literals ''}]'' = ''}]''"
    by code_simp+
  note r = literal_rules [of "''[{\"done\"''" "''}]''" "''[{\"kept\":True}]''"]
  from r have 1: "fix_literals (''[{\"done\"'' @ '': True'' @ ''}]'')
              = fix_literals ''[{\"done\"'' @ '': true'' @ fix_literals ''}]''"
    by (rule conjunct1)
  from r [THEN conjunct2, THEN conjunct2, THEN conjunct2, THEN conjunct2, THEN conjunct2,
          THEN conjunct2, THEN conjunct1, THEN mp, OF k]
  have 2: "fix_literals ''[{\"kept\":True}]'' = ''[{\"kept\":True}]''" .
  from 1 have 3: "fix_literals ''[{\"done\": True}]'' = ''[{\"done\": true}]''"
    by (simp only: a b) simp
  from k have "\<not> sublist '': True'' ''[{\"kept\":True}]''"
    and "\<not> sublist '', True'' ''[{\"kept\":True}]''"
    and "\<not> sublist '': False'' ''[{\"kept\":True}]''"
    and "\<not> sublist '', False'' ''[{\"kept\":True}]''"
    and "\<not> sublist '': None'' ''[{\"kept\":True}]''"
    and "\<not> sublist '', None'' ''[{\"kept\":True}]''"
    by simp_all
  with 2 3 show ?thesis
    by (intro conjI)
qed

text \<open>
  Against claim C7 as it is written. The reply is valid JSON and the content to write is the
  string \<open>done: True\<close>: the plan that \<^verbatim>\<open>call_llm\<close> returns has the content \<open>done: true\<close>, so
  string content is rewritten. \<open>: Truest\<close> is rewritten inside a longer word, and the word
  right after a colon is not rewritten.
\<close>

theorem literal_inside_string:
  "json_loads ''[{\"apprentice\": \"file_writer\", \"payload\": {\"filename\": \"a.txt\", \"content\": \"done: True\"}}]''
     = Some (PList [step_of ''file_writer'' [(''filename'', PStr ''a.txt''), (''content'', PStr ''done: True'')]]) \<and>
   call_llm (\<lambda>request. Inr ''[{\"apprentice\": \"file_writer\", \"payload\": {\"filename\": \"a.txt\", \"content\": \"done: True\"}}]'')
       json_loads ''note that it is done''
     = Inr (Plan [step_of ''file_writer'' [(''filename'', PStr ''a.txt''), (''content'', PStr ''done: true'')]]) \<and>
   repair ''[{\"done\": Truest}]'' = ''[{\"done\": truest}]'' \<and>
   repair ''[{\"done\":True}]'' = ''[{\"done\":True}]''"
  by code_simp

section \<open>Repairing twice: claim C6\<close>

lemma balance_braces_alt:
  "balance_braces s = s @ replicate (py_count s ''{'' - py_count s ''}'') CHR ''}''"
  by (simp add: balance_braces_def Let_def)

lemma balance_braces_again: "balance_braces (balance_braces s) = balance_braces s"
  by (simp add: balance_braces_def Let_def py_count_char count_list_replicate)

lemma balance_braces_padded:
  "balance_braces (s @ replicate (py_count s ''{'' - py_count s ''}'') CHR ''}'')
     = s @ replicate (py_count s ''{'' - py_count s ''}'') CHR ''}''"
  using balance_braces_again [of s] by (simp only: balance_braces_alt [of s])

text \<open>The second pass finds the bracketed span of the first one.\<close>

lemma repair_bracketed_again:
  assumes "cleanup_bracketed (CHR ''['' # u @ '']'') = CHR ''['' # u @ '']''"
  shows "repair (balance_braces (CHR ''['' # u @ '']'')) = balance_braces (CHR ''['' # u @ '']'')"
proof -
  let ?x = "CHR ''['' # u @ '']''"
  let ?k = "py_count ?x ''{'' - py_count ?x ''}''"
  let ?r = "?x @ replicate ?k CHR ''}''"
  have f: "py_find ?r ''['' = 0"
    by simp
  have "py_rfind ((CHR ''['' # u) @ CHR '']'' # replicate ?k CHR ''}'') '']''
          = int (length (CHR ''['' # u))"
    by (rule py_rfind_here) simp
  then have r: "py_rfind ?r '']'' = int (length u) + 1"
    by simp
  have "py_slice ([] @ ?x @ replicate ?k CHR ''}'') (int (length ([] :: string)))
          (int (length ([] :: string) + length ?x)) = ?x"
    by (rule py_slice_within)
  then have s: "py_slice ?r 0 (int (length u) + 1 + 1) = ?x"
    by (simp add: add.commute)
  have "repair ?r = balance_braces (cleanup_bracketed ?x)"
    unfolding repair_def Let_def f r s by simp
  with assms show ?thesis
    by (simp add: balance_braces_alt [of ?x])
qed

text \<open>The rules of the fall-back path move no bracket.\<close>

lemma py_find_range: "py_find s [c] = - 1 \<or> 0 \<le> py_find s [c]"
  by (induction s) (auto simp: Let_def)

lemma py_rfind_range: "py_rfind s [c] = - 1 \<or> 0 \<le> py_rfind s [c]"
  by (induction s) (auto simp: Let_def)

lemma py_find_skip:
  "c \<notin> set a \<Longrightarrow>
   py_find (a @ b) [c] = (if py_find b [c] = - 1 then - 1 else int (length a) + py_find b [c])"
  using py_find_range [of b c] by (induction a) (auto simp: Let_def)

lemma py_rfind_skip:
  "c \<notin> set a \<Longrightarrow>
   py_rfind (a @ b) [c] = (if py_rfind b [c] = - 1 then - 1 else int (length a) + py_rfind b [c])"
  using py_rfind_range [of b c] by (induction a) (auto simp: Let_def)

lemma py_find_append_out: "c \<notin> set b \<Longrightarrow> py_find (a @ b) [c] = py_find a [c]"
  by (induction a) (auto simp: Let_def py_find_absent)

lemma py_rfind_append_out: "c \<notin> set b \<Longrightarrow> py_rfind (a @ b) [c] = py_rfind a [c]"
  by (induction a) (auto simp: Let_def py_rfind_absent)

lemma py_find_py_replace:
  assumes "old \<noteq> []" and "length new = length old" and "c \<notin> set old" and "c \<notin> set new"
  shows "py_find (py_replace s old new) [c] = py_find s [c]"
  using assms
proof (induction s old new rule: py_replace.induct)
  case (1 old new)
  then show ?case by simp
next
  case (2 x s old new)
  show ?case
  proof (cases "prefix old (x # s)")
    case True
    then have e: "x # s = old @ drop (length old) (x # s)"
      by (metis append_eq_conv_conj prefix_def)
    have "py_find (old @ drop (length old) (x # s)) [c]
            = py_find (new @ py_replace (drop (length old) (x # s)) old new) [c]"
      using 2 True by (simp add: py_find_skip)
    with e 2 True show ?thesis by simp
  next
    case False
    with 2 show ?thesis by (auto simp: Let_def)
  qed
qed

lemma py_rfind_py_replace:
  assumes "old \<noteq> []" and "length new = length old" and "c \<notin> set old" and "c \<notin> set new"
  shows "py_rfind (py_replace s old new) [c] = py_rfind s [c]"
  using assms
proof (induction s old new rule: py_replace.induct)
  case (1 old new)
  then show ?case by simp
next
  case (2 x s old new)
  show ?case
  proof (cases "prefix old (x # s)")
    case True
    then have e: "x # s = old @ drop (length old) (x # s)"
      by (metis append_eq_conv_conj prefix_def)
    have "py_rfind (old @ drop (length old) (x # s)) [c]
            = py_rfind (new @ py_replace (drop (length old) (x # s)) old new) [c]"
      using 2 True by (simp add: py_rfind_skip)
    with e 2 True show ?thesis by simp
  next
    case False
    with 2 show ?thesis by (auto simp: Let_def)
  qed
qed

lemma cleanup_fallback_brackets:
  "py_find (cleanup_fallback s) ''['' = py_find s ''[''"
  "py_rfind (cleanup_fallback s) '']'' = py_rfind s '']''"
  by (simp_all add: cleanup_fallback_alt fix_quotes_def fix_literals_fallback_def
      py_find_py_replace py_rfind_py_replace)

lemma py_replace_braces:
  assumes "old \<noteq> []" and "CHR ''}'' \<notin> set old"
  shows "py_replace (s @ replicate k CHR ''}'') old new
           = py_replace s old new @ replicate k CHR ''}''"
proof (induction k)
  case 0
  show ?case by simp
next
  case (Suc k)
  have e: "s @ replicate (Suc k) CHR ''}'' = (s @ replicate k CHR ''}'') @ [CHR ''}'']"
    by (simp add: replicate_append_same)
  have "py_replace ((s @ replicate k CHR ''}'') @ [CHR ''}'']) old new
          = py_replace (s @ replicate k CHR ''}'') old new @ [CHR ''}'']"
    using assms by (rule py_replace_snoc)
  then have "py_replace (s @ replicate (Suc k) CHR ''}'') old new
               = (py_replace s old new @ replicate k CHR ''}'') @ [CHR ''}'']"
    by (simp only: e Suc)
  then show ?case by (simp add: replicate_append_same)
qed

lemma cleanup_fallback_braces:
  "cleanup_fallback (s @ replicate k CHR ''}'') = cleanup_fallback s @ replicate k CHR ''}''"
  by (simp add: cleanup_fallback_alt fix_quotes_def fix_literals_fallback_def py_replace_braces)

lemma repair_fallback_again:
  assumes "\<not> (py_find raw ''['' \<noteq> - 1 \<and> py_rfind raw '']'' \<noteq> - 1
              \<and> py_rfind raw '']'' > py_find raw ''['')"
  shows "repair (repair raw) = repair raw"
proof -
  let ?y = "cleanup_fallback raw"
  let ?k = "py_count ?y ''{'' - py_count ?y ''}''"
  have 1: "repair raw = ?y @ replicate ?k CHR ''}''"
    using assms by (auto simp: repair_def Let_def balance_braces_alt)
  have f: "py_find (?y @ replicate ?k CHR ''}'') ''['' = py_find raw ''[''"
    by (simp add: py_find_append_out cleanup_fallback_brackets)
  have r: "py_rfind (?y @ replicate ?k CHR ''}'') '']'' = py_rfind raw '']''"
    by (simp add: py_rfind_append_out cleanup_fallback_brackets)
  have "repair (?y @ replicate ?k CHR ''}'')
          = balance_braces (cleanup_fallback (?y @ replicate ?k CHR ''}''))"
    using assms unfolding repair_def Let_def f r by auto
  also have "\<dots> = balance_braces (?y @ replicate ?k CHR ''}'')"
    by (simp only: cleanup_fallback_braces fallback_fixed)
  also have "\<dots> = ?y @ replicate ?k CHR ''}''"
    by (rule balance_braces_padded)
  finally show ?thesis
    by (simp only: 1)
qed

lemma sublist_inside: "sublist p u \<Longrightarrow> sublist p (a @ u @ b)"
  by (auto simp: sublist_def) (metis append.assoc)

text \<open>
  Claim C6 (idempotent repair), as amended. Repairing a repaired text changes nothing when the
  repaired text holds no run of three backticks. It changes nothing either when the reply has
  no backtick, or has no asterisk, be the reply valid JSON or not.
\<close>

theorem repair_idempotent:
  "(\<not> sublist [CHR 0x60, CHR 0x60, CHR 0x60] (repair raw) \<longrightarrow> repair (repair raw) = repair raw) \<and>
   (CHR 0x60 \<notin> set raw \<or> CHR ''*'' \<notin> set raw \<longrightarrow> repair (repair raw) = repair raw)"
proof (cases "py_find raw ''['' \<noteq> - 1 \<and> py_rfind raw '']'' \<noteq> - 1
              \<and> py_rfind raw '']'' > py_find raw ''[''")
  case False
  from repair_fallback_again [OF False] show ?thesis
    by simp
next
  case True
  then obtain t where t: "py_slice raw (py_find raw ''['') (py_rfind raw '']'' + 1)
                            = CHR ''['' # t @ '']''" and sub: "set t \<subseteq> set raw"
    using bracket_span [of raw "CHR ''[''" "CHR '']''"] by auto
  let ?u = "fix_quotes (fix_literals (strip_markers t))"
  have 1: "repair raw = balance_braces (CHR ''['' # ?u @ '']'')"
    using True by (simp add: repair_def Let_def t cleanup_bracketed_between)
  have fixed: "repair (repair raw) = repair raw"
    if "\<not> sublist [CHR 0x60, CHR 0x60, CHR 0x60] ?u"
  proof -
    have "cleanup_bracketed (CHR ''['' # ?u @ '']'') = CHR ''['' # ?u @ '']''"
      by (simp only: cleanup_bracketed_between inner_fixed [OF that])
    then show ?thesis
      unfolding 1 by (rule repair_bracketed_again)
  qed
  have a: "repair (repair raw) = repair raw"
    if "\<not> sublist [CHR 0x60, CHR 0x60, CHR 0x60] (repair raw)"
  proof (rule fixed)
    show "\<not> sublist [CHR 0x60, CHR 0x60, CHR 0x60] ?u"
    proof
      assume "sublist [CHR 0x60, CHR 0x60, CHR 0x60] ?u"
      then have "sublist [CHR 0x60, CHR 0x60, CHR 0x60]
                   ([CHR ''[''] @ ?u @ ('']'' @ replicate
                      (py_count (CHR ''['' # ?u @ '']'') ''{'' - py_count (CHR ''['' # ?u @ '']'') ''}'')
                      CHR ''}''))"
        by (rule sublist_inside)
      with that show False
        by (simp add: 1 balance_braces_alt)
    qed
  qed
  have b: "repair (repair raw) = repair raw"
    if "CHR 0x60 \<notin> set raw \<or> CHR ''*'' \<notin> set raw"
  proof (rule fixed)
    from that sub have "CHR 0x60 \<notin> set t \<or> CHR ''*'' \<notin> set t" by auto
    then show "\<not> sublist [CHR 0x60, CHR 0x60, CHR 0x60] ?u"
      by (rule inner_no_ticks)
  qed
  from a b show ?thesis by blast
qed

text \<open>
  A fenced reply in single quotes with a Python literal and no asterisk: the second repair
  returns what the first one did.
\<close>

theorem repair_idempotent_witness:
  "CHR ''*'' \<notin> set (''Plan: ```json [{'' @ sq @ ''apprentice'' @ sq @ '': '' @ sq @ ''file_manager'' @ sq
       @ '', '' @ sq @ ''payload'' @ sq @ '': {'' @ sq @ ''recursive'' @ sq @ '': True}}] ``` done'') \<and>
   repair (''Plan: ```json [{'' @ sq @ ''apprentice'' @ sq @ '': '' @ sq @ ''file_manager'' @ sq
       @ '', '' @ sq @ ''payload'' @ sq @ '': {'' @ sq @ ''recursive'' @ sq @ '': True}}] ``` done'')
     = ''[{\"apprentice\": \"file_manager\", \"payload\": {\"recursive\": true}}]'' \<and>
   repair (repair (''Plan: ```json [{'' @ sq @ ''apprentice'' @ sq @ '': '' @ sq @ ''file_manager'' @ sq
       @ '', '' @ sq @ ''payload'' @ sq @ '': {'' @ sq @ ''recursive'' @ sq @ '': True}}] ``` done''))
     = ''[{\"apprentice\": \"file_manager\", \"payload\": {\"recursive\": true}}]''"
proof -
  let ?raw = "''Plan: ```json [{'' @ sq @ ''apprentice'' @ sq @ '': '' @ sq @ ''file_manager'' @ sq
       @ '', '' @ sq @ ''payload'' @ sq @ '': {'' @ sq @ ''recursive'' @ sq @ '': True}}] ``` done''"
  have h: "CHR ''*'' \<notin> set ?raw"
    by code_simp
  have v: "repair ?raw = ''[{\"apprentice\": \"file_manager\", \"payload\": {\"recursive\": true}}]''"
    by code_simp
  from repair_idempotent [of ?raw, THEN conjunct2, THEN mp, OF disjI2, OF h]
  have "repair (repair ?raw) = repair ?raw" .
  with h v show ?thesis
    by (simp only:) simp
qed

text \<open>
  Against claim C6 as it is written. The reply is valid JSON, a plan whose content to write is
  a backtick, two asterisks and two backticks. The first repair removes the asterisks after
  it has looked for the fence, and leaves three backticks; the second repair removes them.
\<close>

theorem repair_not_idempotent:
  "json_loads ''[{\"apprentice\": \"file_writer\", \"payload\": {\"filename\": \"a.md\", \"content\": \"`**``\"}}]''
     = Some (PList [step_of ''file_writer'' [(''filename'', PStr ''a.md''), (''content'', PStr ''`**``'')]]) \<and>
   repair ''[{\"apprentice\": \"file_writer\", \"payload\": {\"filename\": \"a.md\", \"content\": \"`**``\"}}]''
     = ''[{\"apprentice\": \"file_writer\", \"payload\": {\"filename\": \"a.md\", \"content\": \"```\"}}]'' \<and>
   repair (repair ''[{\"apprentice\": \"file_writer\", \"payload\": {\"filename\": \"a.md\", \"content\": \"`**``\"}}]'')
     = ''[{\"apprentice\": \"file_writer\", \"payload\": {\"filename\": \"a.md\", \"content\": \"\"}}]'' \<and>
   repair (repair ''[{\"apprentice\": \"file_writer\", \"payload\": {\"filename\": \"a.md\", \"content\": \"`**``\"}}]'')
     \<noteq> repair ''[{\"apprentice\": \"file_writer\", \"payload\": {\"filename\": \"a.md\", \"content\": \"`**``\"}}]''"
  by code_simp

end
